theory Spec2Isabelle
  imports Complex_Main "HOL-Library.Char_ord" "HOL-Library.List_Lexorder" "HOL-Library.Sublist"
    "HOL-Library.Multiset"
begin

text \<open>
  A shallow embedding of the journal analyzer, an Obsidian plugin written in
  TypeScript (\<open>main.ts\<close>): the selection of journal files by date, the aggregation
  of their text, the call of the external analysis tool through a temporary file,
  the parsing of its suggestions, the analysis note and the insertion of links.
  Functions keep the names they have in the source. What the source takes from its
  host and from the runtime (the vault, the collation of strings, \<open>JSON.parse\<close>,
  the conversion of a value to a number, the clock, the external process) is a
  parameter or a model that says so.
\<close>

section \<open>Strings and the string operations of the runtime\<close>

text \<open>
  A JavaScript string is a sequence of code units; it is modelled as a \<open>string\<close>
  (a list of 8-bit characters, so code units above 255 are outside the model). The
  relational operators of JavaScript on two strings compare code units
  lexicographically, which is the order of \<open>HOL-Library.List_Lexorder\<close> over
  \<open>HOL-Library.Char_ord\<close>.
\<close>

text \<open>\<open>s.startsWith(p)\<close>\<close>

definition startsWith :: "string \<Rightarrow> string \<Rightarrow> bool" where
  "startsWith s p = prefix p s"

text \<open>
  The regular expressions of the source are sequences of single-character classes,
  so a match has the length of the pattern. \<open>matchHere\<close> is a match anchored at
  the start of the text, \<open>firstMatch\<close> the leftmost match (what
  \<open>String.prototype.match\<close> returns for a regular expression without the global
  flag), \<open>None\<close> standing for \<open>null\<close>.
\<close>

datatype cls = Digit | Lit char

fun clsOk :: "cls \<Rightarrow> char \<Rightarrow> bool" where
  "clsOk Digit c = (c \<in> set ''0123456789'')"
| "clsOk (Lit d) c = (c = d)"

fun matchHere :: "cls list \<Rightarrow> string \<Rightarrow> bool" where
  "matchHere [] s = True"
| "matchHere (p # ps) [] = False"
| "matchHere (p # ps) (c # cs) = (clsOk p c \<and> matchHere ps cs)"

fun firstMatch :: "cls list \<Rightarrow> string \<Rightarrow> string option" where
  "firstMatch pat [] = (if matchHere pat [] then Some [] else None)"
| "firstMatch pat (c # cs) =
     (if matchHere pat (c # cs) then Some (take (length pat) (c # cs))
      else firstMatch pat cs)"

text \<open>The pattern \<open>/(\d{4}-\d{2}-\d{2})/\<close> of \<open>getJournalFilesInRange\<close>.\<close>

definition datePattern :: "cls list" where
  "datePattern =
     [Digit, Digit, Digit, Digit, Lit CHR ''-'', Digit, Digit, Lit CHR ''-'', Digit, Digit]"

text \<open>\<open>file.basename.match(/(\d{4}-\d{2}-\d{2})/)\<close>, its group 1 when it matches.\<close>

definition dateMatch :: "string \<Rightarrow> string option" where
  "dateMatch s = firstMatch datePattern s"

text \<open>
  \<open>Array.prototype.sort(compare)\<close> is a stable sort. For a comparator that is a
  total preorder the result of a stable sort is determined, and it is the one
  insertion sort computes; for an inconsistent comparator the runtime's result is
  implementation-defined and the model says nothing about it. The comparator
  returns a negative number, zero or a positive number, as in the source.
\<close>

fun insort_cmp :: "('a \<Rightarrow> 'a \<Rightarrow> int) \<Rightarrow> 'a \<Rightarrow> 'a list \<Rightarrow> 'a list" where
  "insort_cmp cmp x [] = [x]"
| "insort_cmp cmp x (y # ys) =
     (if cmp x y \<le> 0 then x # y # ys else y # insort_cmp cmp x ys)"

definition sort_cmp :: "('a \<Rightarrow> 'a \<Rightarrow> int) \<Rightarrow> 'a list \<Rightarrow> 'a list" where
  "sort_cmp cmp xs = foldr (insort_cmp cmp) xs []"

section \<open>The note store\<close>

text \<open>Every failure of the source is a JavaScript \<open>Error\<close> with a message.\<close>

datatype error = Error (message: string)

text \<open>The fields of Obsidian's \<open>TFile\<close> that the source reads.\<close>

record TFile =
  path :: string
  basename :: string
  extension :: string
  mtime :: nat

datatype TAbstractFile = AFile TFile | AFolder string

text \<open>
  Modelled from the spec: the note store (section 6: listAll, read, create, modify,
  exists, createFolder) is the host application's vault, whose code is not part of
  the sources. A vault holds its files with their bodies, in the order in which the
  host lists them, and the paths of its folders.
\<close>

record Vault =
  fileList :: "(TFile \<times> string) list"
  folderList :: "string list"

text \<open>
  Modelled from the spec: the store's lookup by path, \<open>vault.getAbstractFileByPath(p)\<close>
  in the source, which returns the file or the folder at a path, or \<open>null\<close>.
\<close>

definition getAbstractFileByPath :: "Vault \<Rightarrow> string \<Rightarrow> TAbstractFile option" where
  "getAbstractFileByPath v p =
     (case find (\<lambda>e. path (fst e) = p) (fileList v) of
        Some e \<Rightarrow> Some (AFile (fst e))
      | None \<Rightarrow> if p \<in> set (folderList v) then Some (AFolder p) else None)"

text \<open>
  Modelled from the spec: the store's list of files (listAll),
  \<open>vault.getMarkdownFiles()\<close> in the source: the files with the extension \<open>md\<close>.
\<close>

definition getMarkdownFiles :: "Vault \<Rightarrow> TFile list" where
  "getMarkdownFiles v = filter (\<lambda>f. extension f = ''md'') (map fst (fileList v))"

text \<open>
  Modelled from the spec: the store's read, \<open>vault.read(file)\<close> in the source: the
  body of the file at the file's path; it fails when the file is no longer in the
  vault.
\<close>

definition read :: "Vault \<Rightarrow> TFile \<Rightarrow> error + string" where
  "read v f =
     (case find (\<lambda>e. path (fst e) = path f) (fileList v) of
        Some e \<Rightarrow> Inr (snd e)
      | None \<Rightarrow> Inl (Error ''File not found''))"

section \<open>Settings\<close>

record JournalAnalyzerSettings =
  journalFolder :: string
  metaFolder :: string
  claudeCodePath :: string
  daysToAnalyze :: int
  connectionMinConfidence :: int
  connectionTypes :: "string list"

definition DEFAULT_SETTINGS :: JournalAnalyzerSettings where
  "DEFAULT_SETTINGS =
     \<lparr> journalFolder = ''journal'',
       metaFolder = ''journal/meta'',
       claudeCodePath = ''/Users/timmcelreath/Repos/claude-scripts/claude-wrapper.sh'',
       daysToAnalyze = 30,
       connectionMinConfidence = 70,
       connectionTypes = [''thematic'', ''temporal'', ''entity''] \<rparr>"

section \<open>Range selection\<close>

text \<open>
  The callback of \<open>allFiles.filter\<close> in \<open>getJournalFilesInRange\<close> (main.ts, lines
  143 to 156).
\<close>

definition inRange :: "JournalAnalyzerSettings \<Rightarrow> string \<Rightarrow> string \<Rightarrow> TFile \<Rightarrow> bool" where
  "inRange settings startDate endDate file =
     (if \<not> startsWith (path file) (journalFolder settings) then False
      else case dateMatch (basename file) of
             None \<Rightarrow> False
           | Some fileDate \<Rightarrow> fileDate \<ge> startDate \<and> fileDate \<le> endDate)"

text \<open>
  \<open>getJournalFilesInRange\<close> (main.ts, lines 136 to 159). \<open>localeCompare\<close> is the
  runtime's collation of two strings; it depends on the locale and is a parameter.
\<close>

definition getJournalFilesInRange ::
  "(string \<Rightarrow> string \<Rightarrow> int) \<Rightarrow> JournalAnalyzerSettings \<Rightarrow> Vault \<Rightarrow> string \<Rightarrow> string
     \<Rightarrow> error + TFile list" where
  "getJournalFilesInRange localeCompare settings v startDate endDate =
     (case getAbstractFileByPath v (journalFolder settings) of
        None \<Rightarrow> Inl (Error (''Journal folder not found: '' @ journalFolder settings))
      | Some journalFolder' \<Rightarrow>
          Inr (sort_cmp (\<lambda>a b. localeCompare (basename a) (basename b))
                 (filter (inRange settings startDate endDate) (getMarkdownFiles v))))"

text \<open>
  The spec's words for the same selection: a date is a substring shaped as four
  digits, a hyphen, two digits, a hyphen and two digits; the date of a basename is
  the first such substring; a file is selected when its path starts with the
  journal folder and the date of its basename lies between the bounds.
\<close>

definition isDigit :: "char \<Rightarrow> bool" where
  "isDigit c = (c \<in> set ''0123456789'')"

fun spec_date_shaped :: "string \<Rightarrow> bool" where
  "spec_date_shaped [y1, y2, y3, y4, h1, m1, m2, h2, d1, d2] =
     (isDigit y1 \<and> isDigit y2 \<and> isDigit y3 \<and> isDigit y4 \<and> h1 = CHR ''-'' \<and>
      isDigit m1 \<and> isDigit m2 \<and> h2 = CHR ''-'' \<and> isDigit d1 \<and> isDigit d2)"
| "spec_date_shaped _ = False"

definition spec_first_date :: "string \<Rightarrow> string \<Rightarrow> bool" where
  "spec_first_date s d =
     (\<exists>i \<in> {0..length s}. take 10 (drop i s) = d \<and> spec_date_shaped d \<and>
         (\<forall>k \<in> {0..<i}. \<not> spec_date_shaped (take 10 (drop k s))))"

definition spec_selected :: "JournalAnalyzerSettings \<Rightarrow> string \<Rightarrow> string \<Rightarrow> TFile \<Rightarrow> bool" where
  "spec_selected settings startDate endDate f =
     (prefix (journalFolder settings) (path f) \<and>
      (\<exists>d. spec_first_date (basename f) d \<and> startDate \<le> d \<and> d \<le> endDate))"

text \<open>
  The store's \<open>exists(path)\<close>, the check the source makes with
  \<open>getAbstractFileByPath\<close>: something, a file or a folder, is at the path.
\<close>

definition pathExists :: "Vault \<Rightarrow> string \<Rightarrow> bool" where
  "pathExists v p = (getAbstractFileByPath v p \<noteq> None)"

text \<open>A comparator is consistent when it is a total preorder.\<close>

definition total_preorder :: "('a \<Rightarrow> 'a \<Rightarrow> int) \<Rightarrow> bool" where
  "total_preorder cmp =
     ((\<forall>a b. cmp a b \<le> 0 \<or> cmp b a \<le> 0) \<and>
      (\<forall>a b c. cmp a b \<le> 0 \<longrightarrow> cmp b c \<le> 0 \<longrightarrow> cmp a c \<le> 0))"

subsection \<open>A concrete store and collation, for evaluation\<close>

text \<open>The collation of a locale that orders strings by code unit.\<close>

definition codeUnitCompare :: "string \<Rightarrow> string \<Rightarrow> int" where
  "codeUnitCompare a b = (if a < b then - 1 else if a = b then 0 else 1)"

definition journalFile :: "string \<Rightarrow> TFile" where
  "journalFile day =
     \<lparr> path = ''journal/'' @ day @ ''.md'', basename = day, extension = ''md'', mtime = 0 \<rparr>"

text \<open>Scenario A of the spec, the files listed out of order.\<close>

definition scenarioVault :: Vault where
  "scenarioVault =
     \<lparr> fileList =
         [(journalFile ''2025-10-03'', ''third''),
          (journalFile ''2025-10-01'', ''first''),
          (journalFile ''2025-10-02'', ''second'')],
       folderList = [''journal''] \<rparr>"

definition emptyVault :: Vault where
  "emptyVault = \<lparr> fileList = [], folderList = [] \<rparr>"

text \<open>A vault whose journal folder was renamed: the folder \<open>journal-archive\<close> with
  one entry, and no folder \<open>journal\<close>.\<close>

definition archivedFile :: TFile where
  "archivedFile =
     \<lparr> path = ''journal-archive/2025-10-01.md'', basename = ''2025-10-01'',
       extension = ''md'', mtime = 0 \<rparr>"

definition archiveVault :: Vault where
  "archiveVault =
     \<lparr> fileList = [(archivedFile, ''first'')], folderList = [''journal-archive''] \<rparr>"

section \<open>More of the runtime's string operations\<close>

text \<open>
  \<open>String.prototype.trim\<close> removes white space and line terminators from both ends;
  among the code units of the model these are tab, line feed, vertical tab, form
  feed, carriage return, space and the no-break space.
\<close>

definition isWhiteSpace :: "char \<Rightarrow> bool" where
  "isWhiteSpace c =
     (c \<in> set [CHR 0x09, CHR 0x0A, CHR 0x0B, CHR 0x0C, CHR 0x0D, CHR 0x20, CHR 0xA0])"

definition trim :: "string \<Rightarrow> string" where
  "trim s = rev (dropWhile isWhiteSpace (rev (dropWhile isWhiteSpace s)))"

text \<open>
  \<open>s.split(sep)\<close> for a string separator: the pieces between the occurrences of
  the separator, found from left to right without overlap. \<open>acc\<close> holds the piece
  being read, reversed. An empty separator splits between all code units.
\<close>

function split_from :: "string \<Rightarrow> string \<Rightarrow> string \<Rightarrow> string list" where
  "split_from sep acc [] = [rev acc]"
| "split_from sep acc (c # cs) =
     (if sep \<noteq> [] \<and> prefix sep (c # cs)
      then rev acc # split_from sep [] (drop (length sep) (c # cs))
      else split_from sep (c # acc) cs)"
  by pat_completeness auto
termination
  by (relation "measure (\<lambda>(sep, acc, s). length s)") auto

definition split :: "string \<Rightarrow> string \<Rightarrow> string list" where
  "split s sep = (if sep = [] then map (\<lambda>c. [c]) s else split_from sep [] s)"

text \<open>
  A number in a template literal, for an integer whose digits the runtime prints in
  full: the decimal digits. This is so up to \<open>2^53 - 1\<close>, which bounds the numbers
  printed with \<open>natToString\<close> (a time in milliseconds, the fields of a date, a
  count of pieces of a string, a counter of a loop).
\<close>

fun natToString :: "nat \<Rightarrow> string" where
  "natToString n =
     (if n < 10 then [''0123456789'' ! n]
      else natToString (n div 10) @ [''0123456789'' ! (n mod 10)])"

declare natToString.simps [simp del]

definition intToString :: "int \<Rightarrow> string" where
  "intToString i = (if i < 0 then ''-'' @ natToString (nat (- i)) else natToString (nat i))"

text \<open>\<open>s.padStart(2, '0')\<close>\<close>

definition padStart2 :: "string \<Rightarrow> string" where
  "padStart2 s = replicate (2 - length s) CHR ''0'' @ s"

text \<open>
  \<open>content.replace(searchValue, replaceValue)\<close> with two strings replaces the first
  occurrence of \<open>searchValue\<close>. \<open>splitAtFirst\<close> finds it and returns the text before
  and after it. The replacement is not inserted as it is: the runtime expands the
  patterns \<open>$$\<close> (a dollar sign), \<open>$&\<close> (the matched text), \<open>$`\<close> (the text
  before the match) and \<open>$'\<close> (the text after it) in \<open>replaceValue\<close>; with a string
  as \<open>searchValue\<close> there are no capture groups, so \<open>$1\<close> and the like stay as
  they are.
\<close>

fun splitAtFirst :: "string \<Rightarrow> string \<Rightarrow> string \<Rightarrow> (string \<times> string) option" where
  "splitAtFirst pat acc [] = (if pat = [] then Some (rev acc, []) else None)"
| "splitAtFirst pat acc (c # cs) =
     (if prefix pat (c # cs) then Some (rev acc, drop (length pat) (c # cs))
      else splitAtFirst pat (c # acc) cs)"

fun getSubstitution :: "string \<Rightarrow> string \<Rightarrow> string \<Rightarrow> string \<Rightarrow> string" where
  "getSubstitution matched before after [] = []"
| "getSubstitution matched before after [c] = [c]"
| "getSubstitution matched before after (c # d # t) =
     (if c = CHR ''$'' \<and> d = CHR ''$'' then CHR ''$'' # getSubstitution matched before after t
      else if c = CHR ''$'' \<and> d = CHR ''&'' then matched @ getSubstitution matched before after t
      else if c = CHR ''$'' \<and> d = CHR 0x60 then before @ getSubstitution matched before after t
      else if c = CHR ''$'' \<and> d = CHR 0x27 then after @ getSubstitution matched before after t
      else c # getSubstitution matched before after (d # t))"

definition replace :: "string \<Rightarrow> string \<Rightarrow> string \<Rightarrow> string" where
  "replace s searchValue replaceValue =
     (case splitAtFirst searchValue [] s of
        None \<Rightarrow> s
      | Some (before, after) \<Rightarrow>
          before @ getSubstitution searchValue before after replaceValue @ after)"

text \<open>\<open>targetPath.replace(/\.md$/, '')\<close>: a final \<open>.md\<close> is removed.\<close>

definition stripMd :: "string \<Rightarrow> string" where
  "stripMd p = (if suffix ''.md'' p then take (length p - 3) p else p)"

text \<open>
  \<open>stdout.match(/\[[\s\S]*\]/)\<close>: the match starts at the first \<open>[\<close> that a
  \<open>]\<close> follows, which is the first \<open>[\<close> of the text, and the star is greedy, so it
  ends at the last \<open>]\<close> of the text.
\<close>

definition jsonMatch :: "string \<Rightarrow> string option" where
  "jsonMatch s =
     (case dropWhile (\<lambda>c. c \<noteq> CHR ''['') s of
        [] \<Rightarrow> None
      | b # rest \<Rightarrow>
          if CHR '']'' \<in> set rest
          then Some (b # rev (dropWhile (\<lambda>c. c \<noteq> CHR '']'') (rev rest)))
          else None)"

section \<open>Writing to the note store\<close>

text \<open>
  Modelled from the spec: create, modify and createFolder of the note store. The host
  derives the name fields of a new file from its path; \<open>create\<close> and
  \<open>createFolder\<close> fail when something is at the path already, \<open>modify\<close> when
  the file is not in the vault. \<open>now\<close> is the time of the write.
\<close>

definition fileName :: "string \<Rightarrow> string" where
  "fileName p = rev (takeWhile (\<lambda>c. c \<noteq> CHR ''/'') (rev p))"

definition extensionOf :: "string \<Rightarrow> string" where
  "extensionOf p =
     (if CHR ''.'' \<in> set (fileName p)
      then rev (takeWhile (\<lambda>c. c \<noteq> CHR ''.'') (rev (fileName p))) else [])"

definition basenameOf :: "string \<Rightarrow> string" where
  "basenameOf p =
     (if CHR ''.'' \<in> set (fileName p)
      then take (length (fileName p) - length (extensionOf p) - 1) (fileName p)
      else fileName p)"

definition newFile :: "string \<Rightarrow> nat \<Rightarrow> TFile" where
  "newFile p now =
     \<lparr> path = p, basename = basenameOf p, extension = extensionOf p, mtime = now \<rparr>"

definition createFolder :: "Vault \<Rightarrow> string \<Rightarrow> error + Vault" where
  "createFolder v p =
     (if getAbstractFileByPath v p \<noteq> None then Inl (Error ''Folder already exists.'')
      else Inr (v\<lparr>folderList := folderList v @ [p]\<rparr>))"

definition create :: "Vault \<Rightarrow> nat \<Rightarrow> string \<Rightarrow> string \<Rightarrow> error + Vault" where
  "create v now p content =
     (if getAbstractFileByPath v p \<noteq> None then Inl (Error ''File already exists.'')
      else Inr (v\<lparr>fileList := fileList v @ [(newFile p now, content)]\<rparr>))"

definition modify :: "Vault \<Rightarrow> nat \<Rightarrow> TFile \<Rightarrow> string \<Rightarrow> error + Vault" where
  "modify v now f content =
     (if find (\<lambda>e. path (fst e) = path f) (fileList v) = None
      then Inl (Error ''File not found'')
      else Inr (v\<lparr>fileList :=
                  map (\<lambda>e. if path (fst e) = path f then ((fst e)\<lparr>mtime := now\<rparr>, content) else e)
                    (fileList v)\<rparr>))"

section \<open>The world outside the plugin\<close>

text \<open>What \<open>getFullYear\<close>, \<open>getMonth\<close> and \<open>getDate\<close> return for a \<open>Date\<close>.\<close>

record JSDate =
  fullYear :: nat
  month :: nat
  date :: nat

text \<open>\<open>formatDate\<close> (main.ts, lines 263 to 268)\<close>

definition formatDate :: "JSDate \<Rightarrow> string" where
  "formatDate d =
     natToString (fullYear d) @ ''-'' @ padStart2 (natToString (month d + 1)) @ ''-''
       @ padStart2 (natToString (date d))"

text \<open>
  The promise of \<open>execAsync\<close> is rejected (the process cannot be started, or exits
  with a failure) with an error message, or resolved with what the process wrote to
  its standard output and standard error.
\<close>

datatype ExecResult = Rejected string | Resolved string string

text \<open>
  The runtime and the operating system, as one run of a command sees them: the
  directory of temporary files, the clock (\<open>Date.now()\<close>, \<open>new Date()\<close> and its
  \<open>toLocaleString()\<close>), the external process as a function of the command line and
  the temporary files it can read, and whether writing or unlinking a temporary file
  fails (\<open>Some\<close> of the error's message). The external process does not remove
  or write temporary files. \<open>numberString\<close> is how the runtime prints a number
  beyond the safe integers, where it rounds the digits or uses the exponent form.
\<close>

record Env =
  tmpdir :: string
  now :: nat
  today :: JSDate
  localeString :: string
  numberString :: "int \<Rightarrow> string"
  execAsync :: "string \<Rightarrow> (string \<rightharpoonup> string) \<Rightarrow> ExecResult"
  writeFileFails :: "string option"
  unlinkFails :: "string option"

text \<open>
  A number of the settings in a template literal: its decimal digits when it is a
  safe integer (at most \<open>2^53 - 1\<close> in magnitude), and what the runtime prints
  otherwise.
\<close>

definition numberToString :: "Env \<Rightarrow> int \<Rightarrow> string" where
  "numberToString env n =
     (if - 9007199254740991 \<le> n \<and> n \<le> 9007199254740991 then intToString n
      else numberString env n)"

text \<open>
  Modelled from the spec: writing and removing the temporary artifact (section 4.5),
  \<open>fs.promises.writeFile\<close> and \<open>fs.promises.unlink\<close> in the source. Removing a
  file that is not there fails.
\<close>

definition writeFile :: "Env \<Rightarrow> (string \<rightharpoonup> string) \<Rightarrow> string \<Rightarrow> string
    \<Rightarrow> error + (string \<rightharpoonup> string)" where
  "writeFile env tmp p text =
     (case writeFileFails env of Some m \<Rightarrow> Inl (Error m) | None \<Rightarrow> Inr (tmp(p \<mapsto> text)))"

definition unlink :: "Env \<Rightarrow> (string \<rightharpoonup> string) \<Rightarrow> string \<Rightarrow> error + (string \<rightharpoonup> string)" where
  "unlink env tmp p =
     (case unlinkFails env of
        Some m \<Rightarrow> Inl (Error m)
      | None \<Rightarrow> if tmp p = None then Inl (Error ''ENOENT: no such file or directory'')
                else Inr (tmp(p := None)))"

text \<open>The state a command works on: the vault, the temporary files, and the notices
  shown to the user (\<open>new Notice(...)\<close>), oldest first.\<close>

record World =
  vault :: Vault
  tmpFiles :: "string \<rightharpoonup> string"
  notices :: "string list"

definition notice :: "string \<Rightarrow> World \<Rightarrow> World" where
  "notice m w = w\<lparr>notices := notices w @ [m]\<rparr>"

section \<open>The theme-analysis pipeline\<close>

text \<open>
  \<open>readJournalFiles\<close> (main.ts, lines 161 to 170): the loop over the files, with
  the text read so far in \<open>content\<close>.
\<close>

fun readJournalFiles_loop :: "Vault \<Rightarrow> TFile list \<Rightarrow> string \<Rightarrow> error + string" where
  "readJournalFiles_loop v [] content = Inr content"
| "readJournalFiles_loop v (file # files) content =
     (case read v file of
        Inl e \<Rightarrow> Inl e
      | Inr fileContent \<Rightarrow>
          readJournalFiles_loop v files
            (content @ ''\<newline>\<newline>## Entry: '' @ basename file @ ''\<newline>\<newline>''
               @ fileContent @ ''\<newline>''))"

definition readJournalFiles :: "Vault \<Rightarrow> TFile list \<Rightarrow> error + string" where
  "readJournalFiles v files = readJournalFiles_loop v files []"

text \<open>The prompt of \<open>analyzeWithClaudeCode\<close> (main.ts, lines 173 to 186).\<close>

definition themePrompt :: "string \<Rightarrow> string \<Rightarrow> string \<Rightarrow> string" where
  "themePrompt content startDate endDate =
     ''Analyze the following journal entries from '' @ startDate @ '' to '' @ endDate @ ''.\<newline>''
     @ ''\<newline>''
     @ ''Please provide:\<newline>''
     @ ''\<newline>''
     @ ''1. **Recurring Themes** - Identify major themes that appear multiple times\<newline>''
     @ ''2. **Pattern Recognition** - Note behavioral patterns, decision-making patterns, emotional patterns\<newline>''
     @ ''3. **Key Insights** - What stands out as significant across entries\<newline>''
     @ ''4. **Suggested Connections** - Identify entries or concepts that should be linked together\<newline>''
     @ ''5. **Questions to Consider** - Based on the patterns, what questions might be worth exploring\<newline>''
     @ ''\<newline>''
     @ ''Journal Entries:\<newline>''
     @ content @ ''\<newline>''
     @ ''\<newline>''
     @ ''Please format your response in markdown with clear sections.''"

text \<open>
  The command line \<open>cat "tempFile" | claudeCodePath\<close> of both invocations.
\<close>

definition commandLine :: "JournalAnalyzerSettings \<Rightarrow> string \<Rightarrow> string" where
  "commandLine settings tempFile = ''cat \"'' @ tempFile @ ''\" | '' @ claudeCodePath settings"

text \<open>\<open>content.split('## Entry:').length - 1\<close> (main.ts, line 211)\<close>

definition entriesCount :: "string \<Rightarrow> nat" where
  "entriesCount content = length (split content ''## Entry:'') - 1"

text \<open>The text \<open>analyzeWithClaudeCode\<close> returns (main.ts, lines 212 to 217).\<close>

definition withFooter :: "Env \<Rightarrow> string \<Rightarrow> string \<Rightarrow> string" where
  "withFooter env stdout content =
     trim stdout @ ''\<newline>''
     @ ''\<newline>''
     @ ''---\<newline>''
     @ ''*Generated by Journal Analyzer Plugin*\<newline>''
     @ ''*Entries analyzed: '' @ natToString (entriesCount content) @ ''*\<newline>''
     @ ''*Generated: '' @ localeString env @ ''*''"

text \<open>
  \<open>analyzeWithClaudeCode\<close> (main.ts, lines 172 to 223). Every statement after the
  prompt is inside the \<open>try\<close> block, whose \<open>catch\<close> throws a new error with the
  message of the one caught; there is no \<open>finally\<close>. The function returns its
  result and the temporary files it leaves. Writing to the console is not modelled.
\<close>

definition themeTempFile :: "Env \<Rightarrow> string" where
  "themeTempFile env =
     tmpdir env @ ''/journal-analysis-prompt-'' @ natToString (now env) @ ''.txt''"

definition analyzeWithClaudeCode ::
  "Env \<Rightarrow> JournalAnalyzerSettings \<Rightarrow> (string \<rightharpoonup> string) \<Rightarrow> string \<Rightarrow> string \<Rightarrow> string
     \<Rightarrow> (error + string) \<times> (string \<rightharpoonup> string)" where
  "analyzeWithClaudeCode env settings tmp content startDate endDate =
     (let prompt = themePrompt content startDate endDate;
          tempFile = themeTempFile env;
          failed = (\<lambda>m. Error (''Failed to analyze with Claude Code: '' @ m))
      in case writeFile env tmp tempFile prompt of
           Inl e \<Rightarrow> (Inl (failed (message e)), tmp)
         | Inr tmp1 \<Rightarrow>
             (case execAsync env (commandLine settings tempFile) tmp1 of
                Rejected m \<Rightarrow> (Inl (failed m), tmp1)
              | Resolved stdout stderr \<Rightarrow>
                  (case unlink env tmp1 tempFile of
                     Inl e \<Rightarrow> (Inl (failed (message e)), tmp1)
                   | Inr tmp2 \<Rightarrow>
                       if stdout = [] \<or> length (trim stdout) = 0
                       then (Inl (failed ''Claude Code returned empty response''), tmp2)
                       else (Inr (withFooter env stdout content), tmp2))))"

text \<open>
  \<open>createMetaNote\<close> (main.ts, lines 225 to 261). It returns the error thrown, if
  any, and the vault as the writes so far have left it. Opening the note in the
  workspace is not modelled.
\<close>

definition metaNotePath :: "JournalAnalyzerSettings \<Rightarrow> string \<Rightarrow> string \<Rightarrow> string" where
  "metaNotePath settings startDate endDate =
     metaFolder settings @ ''/analysis-'' @ startDate @ ''-to-'' @ endDate @ ''.md''"

definition frontmatter :: "Env \<Rightarrow> string \<Rightarrow> string \<Rightarrow> string" where
  "frontmatter env startDate endDate =
     ''---\<newline>''
     @ ''date: '' @ formatDate (today env) @ ''\<newline>''
     @ ''type: journal-analysis\<newline>''
     @ ''tags: [meta, analysis, journal]\<newline>''
     @ ''start_date: '' @ startDate @ ''\<newline>''
     @ ''end_date: '' @ endDate @ ''\<newline>''
     @ ''---\<newline>''
     @ ''\<newline>''"

definition createMetaNote ::
  "Env \<Rightarrow> JournalAnalyzerSettings \<Rightarrow> Vault \<Rightarrow> string \<Rightarrow> string \<Rightarrow> string
     \<Rightarrow> error option \<times> Vault" where
  "createMetaNote env settings v analysis startDate endDate =
     (case (if getAbstractFileByPath v (metaFolder settings) = None
            then createFolder v (metaFolder settings) else Inr v) of
        Inl e \<Rightarrow> (Some e, v)
      | Inr v1 \<Rightarrow>
          (let filename = metaNotePath settings startDate endDate;
               fullContent = frontmatter env startDate endDate @ analysis
           in case (case getAbstractFileByPath v1 filename of
                      Some (AFile existingFile) \<Rightarrow> modify v1 (now env) existingFile fullContent
                    | _ \<Rightarrow> create v1 (now env) filename fullContent) of
                Inl e \<Rightarrow> (Some e, v1)
              | Inr v2 \<Rightarrow> (None, v2)))"

text \<open>
  \<open>analyzeJournalRange\<close> (main.ts, lines 95 to 134). The progress window and the
  pause that shows the file names are not modelled.
\<close>

definition analyzeJournalRange ::
  "(string \<Rightarrow> string \<Rightarrow> int) \<Rightarrow> Env \<Rightarrow> JournalAnalyzerSettings \<Rightarrow> World \<Rightarrow> string \<Rightarrow> string
     \<Rightarrow> World" where
  "analyzeJournalRange localeCompare env settings w startDate endDate =
     (let caught = (\<lambda>e. notice (''Error analyzing journal: '' @ message e))
      in case getJournalFilesInRange localeCompare settings (vault w) startDate endDate of
           Inl e \<Rightarrow> caught e w
         | Inr journalFiles \<Rightarrow>
             if length journalFiles = 0
             then notice ''No journal entries found in the specified range'' w
             else
               (case readJournalFiles (vault w) journalFiles of
                  Inl e \<Rightarrow> caught e w
                | Inr journalContent \<Rightarrow>
                    (case analyzeWithClaudeCode env settings (tmpFiles w) journalContent
                            startDate endDate of
                       (Inl e, tmp) \<Rightarrow> caught e (w\<lparr>tmpFiles := tmp\<rparr>)
                     | (Inr analysis, tmp) \<Rightarrow>
                         (case createMetaNote env settings (vault w) analysis startDate endDate of
                            (Some e, v) \<Rightarrow> caught e (w\<lparr>vault := v, tmpFiles := tmp\<rparr>)
                          | (None, v) \<Rightarrow>
                              notice ''Journal analysis complete!''
                                (w\<lparr>vault := v, tmpFiles := tmp\<rparr>)))))"

section \<open>Connection suggestions\<close>

text \<open>
  The interface \<open>Connection\<close> (main.ts, lines 7 to 15), the record the source
  declares a suggestion to be. A confidence is a whole number in the spec; it is an
  \<open>int\<close> here, as is the threshold of the settings (the settings tab stores the
  result of \<open>parseInt\<close>).
\<close>

record Connection =
  sourceFile :: string
  targetFile :: string
  sourceText :: string
  targetText :: string
  reason :: string
  confidence :: int
  connectionType :: string

text \<open>\<open>connectionTypes.join(', ')\<close>\<close>

fun join :: "string list \<Rightarrow> string \<Rightarrow> string" where
  "join [] sep = []"
| "join [x] sep = x"
| "join (x # y # ys) sep = x @ sep @ join (y # ys) sep"

text \<open>
  The loop that builds the context of the other notes (main.ts, lines 329 to 334),
  with the text built so far in \<open>context\<close>.
\<close>

fun buildContext :: "Vault \<Rightarrow> TFile list \<Rightarrow> string \<Rightarrow> error + string" where
  "buildContext v [] context = Inr context"
| "buildContext v (file # files) context =
     (case read v file of
        Inl e \<Rightarrow> Inl e
      | Inr content \<Rightarrow>
          (let preview = (if length content > 500 then take 500 content @ ''...'' else content)
           in buildContext v files
                (context @ ''## '' @ path file @ ''\<newline>'' @ preview @ ''\<newline>\<newline>'')))"

text \<open>The prompt of \<open>analyzeConnections\<close> (main.ts, lines 338 to 371).\<close>

definition connectionPrompt ::
  "Env \<Rightarrow> JournalAnalyzerSettings \<Rightarrow> TFile \<Rightarrow> string \<Rightarrow> string" where
  "connectionPrompt env settings currentFile context =
     ''Analyze the current note and suggest wiki-link connections to other notes in the vault.\<newline>''
     @ ''\<newline>''
     @ ''Current Note: '' @ basename currentFile @ ''\<newline>''
     @ ''\<newline>''
     @ ''Your task:\<newline>''
     @ ''1. Find concepts, themes, people, or ideas in the current note that relate to other notes\<newline>''
     @ ''2. Only suggest connections that meet the minimum confidence threshold: ''
         @ numberToString env (connectionMinConfidence settings) @ ''%\<newline>''
     @ ''3. Focus on connection types: '' @ join (connectionTypes settings) '', '' @ ''\<newline>''
     @ ''\<newline>''
     @ ''For each suggested connection, provide:\<newline>''
     @ ''- sourceText: The exact text in current note that should be linked (5-30 words)\<newline>''
     @ ''- targetFile: The path to the note it should link to\<newline>''
     @ ''- targetText: The relevant text in the target note (5-30 words)\<newline>''
     @ ''- reason: Why this connection is meaningful (1 sentence)\<newline>''
     @ ''- confidence: Your confidence level (0-100)\<newline>''
     @ ''- connectionType: One of: thematic, temporal, entity, causal\<newline>''
     @ ''\<newline>''
     @ ''Return ONLY valid JSON array of connection objects. Example:\<newline>''
     @ ''[\<newline>''
     @ ''  {\<newline>''
     @ ''    \"sourceFile\": \"'' @ path currentFile @ ''\",\<newline>''
     @ ''    \"targetFile\": \"journal/2025-10-17.md\",\<newline>''
     @ ''    \"sourceText\": \"making art less intimidating\",\<newline>''
     @ ''    \"targetText\": \"Artsy's mission to make art accessible\",\<newline>''
     @ ''    \"reason\": \"Same core mission concept in different contexts\",\<newline>''
     @ ''    \"confidence\": 95,\<newline>''
     @ ''    \"connectionType\": \"thematic\"\<newline>''
     @ ''  }\<newline>''
     @ '']\<newline>''
     @ ''\<newline>''
     @ ''Context:\<newline>''
     @ context @ ''\<newline>''
     @ ''\<newline>''
     @ ''Return JSON array only:''"

text \<open>
  What \<open>JSON.parse\<close> returns is a value of the language, whatever the source
  declares it to be: \<open>null\<close>, a boolean, a number, a string, an array, or an
  object with its properties (each name once). A number is a finite value, an
  infinity (which a numeral too large for a double decodes to) or \<open>NaN\<close>.
\<close>

datatype number = NaN | Infinity | NegInfinity | Finite rat

datatype json =
    JNull
  | JBoolean bool
  | JNumber number
  | JString string
  | JArray "json list"
  | JObject "(string \<times> json) list"

text \<open>
  \<open>c.confidence\<close>: reading the property of an element. For \<open>null\<close> the runtime
  throws a \<open>TypeError\<close> (the message is the one of V8, the runtime of the host);
  an object gives the value of its property, and \<open>undefined\<close> (here \<open>None\<close>)
  when it has none of that name, as does every boolean, number, string and array.
\<close>

definition getConfidence :: "json \<Rightarrow> error + json option" where
  "getConfidence c =
     (case c of
        JNull \<Rightarrow> Inl (Error ''Cannot read properties of null (reading 'confidence')'')
      | JObject properties \<Rightarrow> Inr (map_of properties ''confidence'')
      | _ \<Rightarrow> Inr None)"

text \<open>
  \<open>x >= y\<close> for a number \<open>y\<close>: the runtime converts \<open>x\<close> to a number, and the
  comparison is false for \<open>NaN\<close>. \<open>undefined\<close> converts to \<open>NaN\<close>, \<open>null\<close> to
  zero, \<open>true\<close> to one. The conversion of a string, an array or an object is the
  runtime's \<open>ToNumber\<close>, a parameter.
\<close>

definition toNumber :: "(json \<Rightarrow> number) \<Rightarrow> json option \<Rightarrow> number" where
  "toNumber ToNumber x =
     (case x of
        None \<Rightarrow> NaN
      | Some JNull \<Rightarrow> Finite 0
      | Some (JBoolean b) \<Rightarrow> Finite (if b then 1 else 0)
      | Some (JNumber n) \<Rightarrow> n
      | Some v \<Rightarrow> ToNumber v)"

definition greaterEqual :: "number \<Rightarrow> int \<Rightarrow> bool" where
  "greaterEqual x y =
     (case x of
        NaN \<Rightarrow> False
      | Infinity \<Rightarrow> True
      | NegInfinity \<Rightarrow> False
      | Finite q \<Rightarrow> q \<ge> of_int y)"

text \<open>
  \<open>connections.filter(c => c.confidence >= this.settings.connectionMinConfidence)\<close>
  (main.ts, line 402): the elements are visited in order, and an error thrown for
  one of them ends the filter.
\<close>

fun filterByConfidence :: "(json \<Rightarrow> number) \<Rightarrow> int \<Rightarrow> json list \<Rightarrow> error + json list" where
  "filterByConfidence ToNumber minConfidence [] = Inr []"
| "filterByConfidence ToNumber minConfidence (c # cs) =
     (case getConfidence c of
        Inl e \<Rightarrow> Inl e
      | Inr x \<Rightarrow>
          (case filterByConfidence ToNumber minConfidence cs of
             Inl e \<Rightarrow> Inl e
           | Inr kept \<Rightarrow>
               Inr (if greaterEqual (toNumber ToNumber x) minConfidence then c # kept
                    else kept)))"

text \<open>
  Parsing the response (main.ts, lines 392 to 402). \<open>JSON.parse\<close> is the runtime's:
  it is a parameter that throws an error or returns the decoded value. The value
  is not checked against the declared \<open>Connection[]\<close>: calling \<open>filter\<close> on a value
  that is not an array throws a \<open>TypeError\<close>, for \<open>null\<close> the one of reading a
  property of \<open>null\<close>. (The text handed to \<open>JSON.parse\<close> starts with a bracket,
  so the runtime's own decoder returns an array or throws.)
\<close>

definition parseResponse ::
  "(string \<Rightarrow> error + json) \<Rightarrow> (json \<Rightarrow> number) \<Rightarrow> JournalAnalyzerSettings \<Rightarrow> string
     \<Rightarrow> error + json list" where
  "parseResponse JSON_parse ToNumber settings stdout =
     (case jsonMatch stdout of
        None \<Rightarrow> Inr []
      | Some jsonText \<Rightarrow>
          (case JSON_parse jsonText of
             Inl e \<Rightarrow> Inl e
           | Inr (JArray connections) \<Rightarrow>
               filterByConfidence ToNumber (connectionMinConfidence settings) connections
           | Inr JNull \<Rightarrow> Inl (Error ''Cannot read properties of null (reading 'filter')'')
           | Inr _ \<Rightarrow> Inl (Error ''connections.filter is not a function'')))"

text \<open>
  The first part of \<open>analyzeConnections\<close> (main.ts, lines 313 to 334): the current
  note and the fifty most recently modified other notes are read into the context.
  It is outside the \<open>try\<close> block, so a failure to read a note is thrown as it is.
\<close>

definition connectionContext :: "Vault \<Rightarrow> TFile \<Rightarrow> TFile list \<Rightarrow> error + string" where
  "connectionContext v currentFile allFiles =
     (case read v currentFile of
        Inl e \<Rightarrow> Inl e
      | Inr currentContent \<Rightarrow>
          (let otherFiles = filter (\<lambda>f. path f \<noteq> path currentFile) allFiles;
               recentFiles =
                 take 50 (sort_cmp (\<lambda>a b. int (mtime b) - int (mtime a)) otherFiles)
           in buildContext v recentFiles
                (''# Current Note: '' @ basename currentFile @ ''\<newline>\<newline>''
                   @ currentContent @ ''\<newline>\<newline>---\<newline>\<newline># Other Notes:\<newline>\<newline>'')))"

definition connectionTempFile :: "Env \<Rightarrow> string" where
  "connectionTempFile env = tmpdir env @ ''/connection-analysis-'' @ natToString (now env) @ ''.txt''"

text \<open>
  \<open>analyzeConnections\<close> (main.ts, lines 312 to 408). Every failure inside the
  \<open>try\<close> block is thrown again with the prefix of the \<open>catch\<close>; there is no
  \<open>finally\<close>. The function returns its result, the kept elements of the decoded
  array, and the temporary files it leaves. The progress window and writing to the
  console are not modelled.
\<close>

definition analyzeConnections ::
  "(string \<Rightarrow> error + json) \<Rightarrow> (json \<Rightarrow> number) \<Rightarrow> Env \<Rightarrow> JournalAnalyzerSettings
     \<Rightarrow> Vault \<Rightarrow> (string \<rightharpoonup> string) \<Rightarrow> TFile \<Rightarrow> TFile list
     \<Rightarrow> (error + json list) \<times> (string \<rightharpoonup> string)" where
  "analyzeConnections JSON_parse ToNumber env settings v tmp currentFile allFiles =
     (case connectionContext v currentFile allFiles of
        Inl e \<Rightarrow> (Inl e, tmp)
      | Inr context \<Rightarrow>
          (let prompt = connectionPrompt env settings currentFile context;
               tempFile = connectionTempFile env;
               failed = (\<lambda>m. Error (''Failed to analyze connections: '' @ m))
           in case writeFile env tmp tempFile prompt of
                Inl e \<Rightarrow> (Inl (failed (message e)), tmp)
              | Inr tmp1 \<Rightarrow>
                  (case execAsync env (commandLine settings tempFile) tmp1 of
                     Rejected m \<Rightarrow> (Inl (failed m), tmp1)
                   | Resolved stdout stderr \<Rightarrow>
                       (case unlink env tmp1 tempFile of
                          Inl e \<Rightarrow> (Inl (failed (message e)), tmp1)
                        | Inr tmp2 \<Rightarrow>
                            if stdout = [] \<or> length (trim stdout) = 0
                            then (Inl (failed ''Claude Code returned empty response''), tmp2)
                            else
                              (case parseResponse JSON_parse ToNumber settings stdout of
                                 Inl e \<Rightarrow> (Inl (failed (message e)), tmp2)
                               | Inr connections \<Rightarrow> (Inr connections, tmp2))))))"

section \<open>Inserting links\<close>

text \<open>
  \<open>insertWikiLink\<close> (main.ts, lines 410 to 426): the result (\<open>true\<close>, \<open>false\<close>
  or an error thrown by the store) and the vault afterwards; \<open>time\<close> is the
  time of the write.
\<close>

definition wikiLinkOf :: "string \<Rightarrow> string" where
  "wikiLinkOf targetPath = ''[['' @ stripMd targetPath @ '']]''"

definition insertWikiLink ::
  "Vault \<Rightarrow> nat \<Rightarrow> TFile \<Rightarrow> string \<Rightarrow> string \<Rightarrow> (error + bool) \<times> Vault" where
  "insertWikiLink v time file sourceText' targetPath =
     (case read v file of
        Inl e \<Rightarrow> (Inl e, v)
      | Inr content \<Rightarrow>
          (let wikiLink = wikiLinkOf targetPath;
               updatedContent = replace content sourceText' wikiLink
           in if updatedContent \<noteq> content
              then (case modify v time file updatedContent of
                      Inl e \<Rightarrow> (Inl e, v)
                    | Inr v' \<Rightarrow> (Inr True, v'))
              else (Inr False, v)))"

text \<open>
  The handler of the button that adds all links (main.ts, lines 708 to 731): the loop
  over the connections with the counters \<open>added\<close> and \<open>failed\<close>; an error thrown for
  one connection is caught inside the loop. It returns the vault and the counters.
\<close>

fun addAllLinks ::
  "Vault \<Rightarrow> nat \<Rightarrow> TFile \<Rightarrow> Connection list \<Rightarrow> nat \<Rightarrow> nat \<Rightarrow> Vault \<times> nat \<times> nat" where
  "addAllLinks v time currentFile [] added failed = (v, added, failed)"
| "addAllLinks v time currentFile (connection # rest) added failed =
     (case insertWikiLink v time currentFile (sourceText connection) (targetFile connection) of
        (Inr success, v') \<Rightarrow>
          if success then addAllLinks v' time currentFile rest (added + 1) failed
          else addAllLinks v' time currentFile rest added (failed + 1)
      | (Inl e, v') \<Rightarrow> addAllLinks v' time currentFile rest added (failed + 1))"

text \<open>The connections as the window lists them: by confidence, highest first
  (main.ts, line 632).\<close>

definition sortedConnections :: "Connection list \<Rightarrow> Connection list" where
  "sortedConnections connections =
     sort_cmp (\<lambda>a b. confidence b - confidence a) connections"

text \<open>The notice after all links were added (main.ts, line 729).\<close>

definition addAllNotice :: "nat \<Rightarrow> nat \<Rightarrow> string" where
  "addAllNotice added failed =
     ''Added '' @ natToString added @ '' links. ''
       @ (if failed > 0 then natToString failed @ '' failed.'' else [])"

text \<open>The handler as a whole: the links are added in the order of the window, the
  counters start at zero, and the notice reports them.\<close>

definition addAllHandler :: "Vault \<Rightarrow> nat \<Rightarrow> TFile \<Rightarrow> Connection list \<Rightarrow> Vault \<times> string" where
  "addAllHandler v time currentFile connections =
     (case addAllLinks v time currentFile (sortedConnections connections) 0 0 of
        (v', added, failed) \<Rightarrow> (v', addAllNotice added failed))"

section \<open>The spec's words for aggregation and for the response\<close>

text \<open>
  A section of the aggregated text: a header line with the basename, a blank line
  and the body. The aggregate of a list of files with their bodies is the sections
  one after the other.
\<close>

definition entrySection :: "string \<Rightarrow> string \<Rightarrow> string" where
  "entrySection name body =
     ''\<newline>\<newline>## Entry: '' @ name @ ''\<newline>\<newline>'' @ body @ ''\<newline>''"

definition spec_sections :: "TFile list \<Rightarrow> string list \<Rightarrow> string list" where
  "spec_sections files bodies = map (\<lambda>(f, b). entrySection (basename f) b) (zip files bodies)"

definition spec_aggregate :: "TFile list \<Rightarrow> string list \<Rightarrow> string" where
  "spec_aggregate files bodies = concat (spec_sections files bodies)"

text \<open>The number of places of a text at which a pattern occurs.\<close>

fun occurrences :: "string \<Rightarrow> string \<Rightarrow> nat" where
  "occurrences pat [] = (if pat = [] then 1 else 0)"
| "occurrences pat (c # cs) = (if prefix pat (c # cs) then 1 else 0) + occurrences pat cs"

definition entryMarker :: string where
  "entryMarker = ''## Entry:''"

text \<open>A text is blank when the process wrote nothing or only white space.\<close>

definition spec_blank :: "string \<Rightarrow> bool" where
  "spec_blank out = (\<forall>c \<in> set out. isWhiteSpace c)"

text \<open>
  The bracketed region of a text: from its first \<open>[\<close> to its last \<open>]\<close>, when the
  one comes before the other.
\<close>

definition spec_region :: "string \<Rightarrow> string \<Rightarrow> bool" where
  "spec_region s r =
     (\<exists>pre mid post. s = pre @ ''['' @ mid @ '']'' @ post \<and> CHR ''['' \<notin> set pre \<and>
        CHR '']'' \<notin> set post \<and> r = ''['' @ mid @ '']'')"

subsection \<open>More concrete stores and responses, for evaluation\<close>

text \<open>A journal whose only entry quotes the header of an entry in its body.\<close>

definition quotingVault :: Vault where
  "quotingVault =
     \<lparr> fileList = [(journalFile ''2025-10-05'', ''I wrote: ## Entry: draft'')],
       folderList = [''journal''] \<rparr>"

text \<open>
  The run of \<open>analyzeConnections\<close> in which the notes can be read, the temporary
  file can be written and removed, and the process answers with \<open>stdout\<close>.
\<close>

definition connectionRun ::
  "Env \<Rightarrow> JournalAnalyzerSettings \<Rightarrow> Vault \<Rightarrow> (string \<rightharpoonup> string) \<Rightarrow> TFile \<Rightarrow> TFile list
     \<Rightarrow> string \<Rightarrow> bool" where
  "connectionRun env settings v tmp currentFile allFiles stdout =
     (\<exists>context stderr.
        connectionContext v currentFile allFiles = Inr context \<and>
        writeFileFails env = None \<and> unlinkFails env = None \<and>
        execAsync env (commandLine settings (connectionTempFile env))
          (tmp(connectionTempFile env \<mapsto> connectionPrompt env settings currentFile context))
          = Resolved stdout stderr)"

text \<open>
  The run of \<open>analyzeWithClaudeCode\<close> in which the temporary file can be written
  and removed, and the process answers with \<open>stdout\<close>.
\<close>

definition themeRun ::
  "Env \<Rightarrow> JournalAnalyzerSettings \<Rightarrow> (string \<rightharpoonup> string) \<Rightarrow> string \<Rightarrow> string \<Rightarrow> string
     \<Rightarrow> string \<Rightarrow> bool" where
  "themeRun env settings tmp content startDate endDate stdout =
     (\<exists>stderr.
        writeFileFails env = None \<and> unlinkFails env = None \<and>
        execAsync env (commandLine settings (themeTempFile env))
          (tmp(themeTempFile env \<mapsto> themePrompt content startDate endDate))
          = Resolved stdout stderr)"

text \<open>
  A folder exists in the store when its path is among the store's folders; a note
  is at a path when the path is among the paths of the store's files.
\<close>

definition folderExists :: "Vault \<Rightarrow> string \<Rightarrow> bool" where
  "folderExists v p = (p \<in> set (folderList v))"

definition noteAt :: "Vault \<Rightarrow> string \<Rightarrow> bool" where
  "noteAt v p = (p \<in> set (map (\<lambda>e. path (fst e)) (fileList v)))"

text \<open>
  A suggestion as a decoded value: the object with the seven properties of the
  interface, the confidence a number.
\<close>

definition recordJson :: "Connection \<Rightarrow> json" where
  "recordJson c =
     JObject
       [(''sourceFile'', JString (sourceFile c)),
        (''targetFile'', JString (targetFile c)),
        (''sourceText'', JString (sourceText c)),
        (''targetText'', JString (targetText c)),
        (''reason'', JString (reason c)),
        (''confidence'', JNumber (Finite (of_int (confidence c)))),
        (''connectionType'', JString (connectionType c))]"

text \<open>
  The spec's words for the confidence filter: an element of the decoded array
  passes when it is a record with a confidence and that confidence, as a number, is
  at least the threshold.
\<close>

fun spec_passes :: "(json \<Rightarrow> number) \<Rightarrow> int \<Rightarrow> json \<Rightarrow> bool" where
  "spec_passes ToNumber minConfidence (JObject properties) =
     (case map_of properties ''confidence'' of
        None \<Rightarrow> False
      | Some x \<Rightarrow> greaterEqual (toNumber ToNumber (Some x)) minConfidence)"
| "spec_passes ToNumber minConfidence _ = False"

text \<open>
  A decoder that knows the given documents and rejects every other text, in the
  place of \<open>JSON.parse\<close>; and, in the place of the runtime's conversion of a
  string, an array or an object to a number, the one that gives \<open>NaN\<close> (what the
  runtime gives for a text that is no numeral and for an object).
\<close>

definition decoderOf :: "(string \<times> json) list \<Rightarrow> string \<Rightarrow> error + json" where
  "decoderOf docs t =
     (case map_of docs t of
        Some decoded \<Rightarrow> Inr decoded
      | None \<Rightarrow> Inl (Error ''Unexpected token in JSON''))"

definition notNumeric :: "json \<Rightarrow> number" where
  "notNumeric x = NaN"

definition connectionWith :: "int \<Rightarrow> Connection" where
  "connectionWith n =
     \<lparr> sourceFile = ''a.md'', targetFile = ''b.md'', sourceText = ''x'', targetText = ''y'',
       reason = ''r'', confidence = n, connectionType = ''thematic'' \<rparr>"




text \<open>
  The text of a suggestion with the given confidence, and a response with three
  suggestions, at, below and above the default threshold.
\<close>

definition recordText :: "string \<Rightarrow> string" where
  "recordText n =
     ''{\"sourceFile\":\"a.md\",\"targetFile\":\"b.md\",\"sourceText\":\"x\",''
     @ ''\"targetText\":\"y\",\"reason\":\"r\",\"confidence\":'' @ n
     @ '',\"connectionType\":\"thematic\"}''"

definition boundaryResponse :: string where
  "boundaryResponse =
     ''['' @ recordText ''70'' @ '', '' @ recordText ''69'' @ '', '' @ recordText ''95'' @ '']''"

definition boundaryDecoder :: "string \<Rightarrow> error + json" where
  "boundaryDecoder =
     decoderOf
       [(boundaryResponse,
         JArray [recordJson (connectionWith 70), recordJson (connectionWith 69),
                 recordJson (connectionWith 95)])]"




definition mixedResponse :: string where
  "mixedResponse = ''[1, \"x\", {\"confidence\":80}, {\"confidence\":12.5}, {}]''"

definition mixedDecoder :: "string \<Rightarrow> error + json" where
  "mixedDecoder =
     decoderOf
       [(mixedResponse,
         JArray [JNumber (Finite 1), JString ''x'',
                 JObject [(''confidence'', JNumber (Finite 80))],
                 JObject [(''confidence'', JNumber (Finite (25 / 2)))],
                 JObject []])]"

text \<open>The settings with a note's path as the journal folder.\<close>

definition noteSettings :: JournalAnalyzerSettings where
  "noteSettings = DEFAULT_SETTINGS\<lparr>journalFolder := ''journal/2025-10-01.md''\<rparr>"

text \<open>
  An environment in which writing and removing temporary files succeed and the
  process answers every command with the given output, and one in which the process
  cannot be started.
\<close>

definition answeringEnv :: "string \<Rightarrow> Env" where
  "answeringEnv out =
     \<lparr> tmpdir = ''/tmp'', now = 1762160400000,
       today = \<lparr> fullYear = 2025, month = 10, date = 3 \<rparr>,
       localeString = ''11/3/2025, 9:00:00 AM'',
       numberString = (\<lambda>n. ''1e+21''),
       execAsync = (\<lambda>command tmp. Resolved out []),
       writeFileFails = None, unlinkFails = None \<rparr>"

definition failingEnv :: Env where
  "failingEnv =
     \<lparr> tmpdir = ''/tmp'', now = 1762160400000,
       today = \<lparr> fullYear = 2025, month = 10, date = 3 \<rparr>,
       localeString = ''11/3/2025, 9:00:00 AM'',
       numberString = (\<lambda>n. ''1e+21''),
       execAsync = (\<lambda>command tmp. Rejected ''Command failed: /bin/sh: claude: command not found''),
       writeFileFails = None, unlinkFails = None \<rparr>"

text \<open>The process writes nothing or only white space, whatever the command.\<close>

definition processWritesBlank :: "Env \<Rightarrow> bool" where
  "processWritesBlank env =
     (\<forall>command tmp. \<exists>out err. execAsync env command tmp = Resolved out err \<and> spec_blank out)"

text \<open>The bodies of the notes at a path, in the order of the store.\<close>

definition bodiesAt :: "Vault \<Rightarrow> string \<Rightarrow> string list" where
  "bodiesAt v p = map snd (filter (\<lambda>e. path (fst e) = p) (fileList v))"

text \<open>The paths of the notes, in the order of the store.\<close>

definition notePaths :: "Vault \<Rightarrow> string list" where
  "notePaths v = map (\<lambda>e. path (fst e)) (fileList v)"

text \<open>The notes at other paths than the given one.\<close>

definition notesElsewhere :: "Vault \<Rightarrow> string \<Rightarrow> (TFile \<times> string) list" where
  "notesElsewhere v p = filter (\<lambda>e. path (fst e) \<noteq> p) (fileList v)"

definition scenarioWorld :: World where
  "scenarioWorld = \<lparr> vault = scenarioVault, tmpFiles = Map.empty, notices = [] \<rparr>"

text \<open>The store after the first statement of \<open>createMetaNote\<close>, which creates the
  meta folder when nothing is at its path.\<close>

definition withMetaFolder :: "JournalAnalyzerSettings \<Rightarrow> Vault \<Rightarrow> Vault" where
  "withMetaFolder settings v =
     (if getAbstractFileByPath v (metaFolder settings) = None
      then v\<lparr>folderList := folderList v @ [metaFolder settings]\<rparr> else v)"

text \<open>How \<open>modify\<close> rewrites the notes at a path.\<close>

definition rewritten :: "string \<Rightarrow> nat \<Rightarrow> string \<Rightarrow> (TFile \<times> string) list \<Rightarrow> (TFile \<times> string) list" where
  "rewritten p time content entries =
     map (\<lambda>e. if path (fst e) = p then ((fst e)\<lparr>mtime := time\<rparr>, content) else e) entries"

text \<open>A vault with one note, and that note.\<close>

definition noteFile :: TFile where
  "noteFile = \<lparr> path = ''note.md'', basename = ''note'', extension = ''md'', mtime = 0 \<rparr>"

definition linkVault :: Vault where
  "linkVault = \<lparr> fileList = [(noteFile, ''Talked about money today'')], folderList = [] \<rparr>"

text \<open>A suggestion to link the given text of the note to \<open>Cash.md\<close>.\<close>

definition suggestion :: "string \<Rightarrow> Connection" where
  "suggestion text =
     \<lparr> sourceFile = ''note.md'', targetFile = ''Cash.md'', sourceText = text,
       targetText = ''cash'', reason = ''r'', confidence = 90, connectionType = ''thematic'' \<rparr>"

section \<open>Facts about the runtime's operations\<close>

lemma trim_Nil_iff: "trim out = [] \<longleftrightarrow> spec_blank out"
proof
  assume "trim out = []"
  then have all: "\<forall>x \<in> set (dropWhile isWhiteSpace out). isWhiteSpace x"
    by (simp add: trim_def dropWhile_eq_Nil_conv)
  have "dropWhile isWhiteSpace out = []"
  proof (rule ccontr)
    assume ne: "dropWhile isWhiteSpace out \<noteq> []"
    then have "\<not> isWhiteSpace (hd (dropWhile isWhiteSpace out))"
      by (rule hd_dropWhile)
    moreover have "hd (dropWhile isWhiteSpace out) \<in> set (dropWhile isWhiteSpace out)"
      using ne by simp
    ultimately show False using all by blast
  qed
  then show "spec_blank out"
    by (simp add: spec_blank_def dropWhile_eq_Nil_conv)
next
  assume "spec_blank out"
  then have d: "dropWhile isWhiteSpace out = []"
    by (simp add: spec_blank_def dropWhile_eq_Nil_conv)
  show "trim out = []" unfolding trim_def d by simp
qed

lemma blank_check: "(out = [] \<or> length (trim out) = 0) \<longleftrightarrow> spec_blank out"
  by (auto simp: trim_Nil_iff [symmetric] trim_def)

lemma writeFile_ok:
  "writeFileFails env = None \<Longrightarrow> writeFile env tmp p t = Inr (tmp(p \<mapsto> t))"
  by (simp add: writeFile_def)

lemma unlink_written:
  "unlinkFails env = None \<Longrightarrow> unlink env (tmp(p \<mapsto> t)) p = Inr (tmp(p := None))"
  by (simp add: unlink_def)

section \<open>Sorting and matching\<close>

lemma mset_insort_cmp: "mset (insort_cmp cmp x xs) = add_mset x (mset xs)"
  by (induction xs) auto

lemma mset_sort_cmp: "mset (sort_cmp cmp xs) = mset xs"
  by (induction xs) (auto simp: sort_cmp_def mset_insort_cmp)

lemma set_insort_cmp: "set (insort_cmp cmp x xs) = insert x (set xs)"
  by (induction xs) auto

lemma sorted_insort_cmp:
  assumes "total_preorder cmp" "sorted_wrt (\<lambda>a b. cmp a b \<le> 0) xs"
  shows "sorted_wrt (\<lambda>a b. cmp a b \<le> 0) (insort_cmp cmp x xs)"
  using assms
proof (induction xs)
  case Nil
  then show ?case by simp
next
  case (Cons y ys)
  then show ?case
    unfolding total_preorder_def
    by (auto simp: set_insort_cmp)
qed

lemma sorted_sort_cmp:
  "total_preorder cmp \<Longrightarrow> sorted_wrt (\<lambda>a b. cmp a b \<le> 0) (sort_cmp cmp xs)"
  by (induction xs) (auto simp: sort_cmp_def sorted_insort_cmp)

lemma matchHere_iff:
  "matchHere pat s \<longleftrightarrow> length pat \<le> length s \<and> list_all2 clsOk pat (take (length pat) s)"
  by (induction pat s rule: matchHere.induct) auto

lemma firstMatch_Some:
  "firstMatch pat s = Some d \<Longrightarrow>
     \<exists>pre post. s = pre @ d @ post \<and> matchHere pat (d @ post) \<and> length d = length pat \<and>
        (\<forall>k < length pre. \<not> matchHere pat (drop k s))"
proof (induction pat s rule: firstMatch.induct)
  case (1 pat)
  then show ?case by (auto split: if_splits simp: matchHere_iff)
next
  case (2 pat c cs)
  show ?case
  proof (cases "matchHere pat (c # cs)")
    case True
    with 2 have d: "d = take (length pat) (c # cs)" by simp
    from True have len: "length pat \<le> length (c # cs)" by (simp add: matchHere_iff)
    show ?thesis
      apply (rule exI[of _ "[]"], rule exI[of _ "drop (length pat) (c # cs)"])
      using True d len by (simp del: take_Suc_Cons drop_Suc_Cons)
  next
    case False
    with 2 obtain pre post where p: "cs = pre @ d @ post" "matchHere pat (d @ post)"
      "length d = length pat" "\<forall>k < length pre. \<not> matchHere pat (drop k cs)"
      by auto
    have "\<forall>k < length (c # pre). \<not> matchHere pat (drop k (c # cs))"
    proof (intro allI impI)
      fix k assume "k < length (c # pre)"
      then show "\<not> matchHere pat (drop k (c # cs))"
        using False p(4) by (cases k) auto
    qed
    with p show ?thesis
      by (intro exI[of _ "c # pre"] exI[of _ post]) simp
  qed
qed

lemma firstMatch_None:
  "firstMatch pat s = None \<Longrightarrow> k \<le> length s \<Longrightarrow> \<not> matchHere pat (drop k s)"
proof (induction pat s arbitrary: k rule: firstMatch.induct)
  case (1 pat)
  then show ?case by (auto split: if_splits)
next
  case (2 pat c cs)
  then show ?case by (cases k) (auto split: if_splits)
qed

lemma spec_date_shaped_length: "spec_date_shaped d \<Longrightarrow> length d = 10"
  by (induction d rule: spec_date_shaped.induct) auto

lemma matchHere_datePattern: "matchHere datePattern s = spec_date_shaped (take 10 s)"
proof (cases "length s < 10")
  case True
  then have "\<not> matchHere datePattern s"
    by (simp add: matchHere_iff datePattern_def)
  moreover from True have "\<not> spec_date_shaped (take 10 s)"
    using spec_date_shaped_length[of "take 10 s"] by auto
  ultimately show ?thesis by simp
next
  case False
  then obtain a b where s: "s = a @ b" "length a = 10"
    by (metis append_take_drop_id length_take min.absorb2 not_less)
  from s(2) obtain y1 y2 y3 y4 h1 m1 m2 h2 d1 d2 where
    a: "a = [y1, y2, y3, y4, h1, m1, m2, h2, d1, d2]"
    by (auto simp: length_Suc_conv eval_nat_numeral)
  show ?thesis
    by (simp add: s(1) a datePattern_def isDigit_def)
qed

lemma dateMatch_Some_iff: "dateMatch s = Some d \<longleftrightarrow> spec_first_date s d"
proof
  assume "dateMatch s = Some d"
  then obtain pre post where p: "s = pre @ d @ post" "matchHere datePattern (d @ post)"
    "length d = length datePattern" "\<forall>k < length pre. \<not> matchHere datePattern (drop k s)"
    unfolding dateMatch_def by (blast dest: firstMatch_Some)
  have l: "length d = 10" using p(3) by (simp add: datePattern_def)
  have "take 10 (drop (length pre) s) = d" using p(1) l by simp
  moreover have "spec_date_shaped d" using p(2) l by (simp add: matchHere_datePattern)
  moreover have "\<forall>k \<in> {0..<length pre}. \<not> spec_date_shaped (take 10 (drop k s))"
    using p(4) by (simp add: matchHere_datePattern)
  moreover have "length pre \<in> {0..length s}" using p(1) by simp
  ultimately show "spec_first_date s d"
    unfolding spec_first_date_def by blast
next
  assume "spec_first_date s d"
  then obtain i where i: "i \<le> length s" "take 10 (drop i s) = d" "spec_date_shaped d"
    "\<forall>k<i. \<not> spec_date_shaped (take 10 (drop k s))"
    unfolding spec_first_date_def by auto
  show "dateMatch s = Some d"
  proof (cases "dateMatch s")
    case None
    then have "\<not> matchHere datePattern (drop i s)"
      unfolding dateMatch_def using i(1) by (rule firstMatch_None)
    then show ?thesis using i(2,3) by (simp add: matchHere_datePattern)
  next
    case (Some d')
    then obtain pre post where p: "s = pre @ d' @ post" "matchHere datePattern (d' @ post)"
      "length d' = length datePattern" "\<forall>k < length pre. \<not> matchHere datePattern (drop k s)"
      unfolding dateMatch_def by (blast dest: firstMatch_Some)
    have l: "length d' = 10" using p(3) by (simp add: datePattern_def)
    have m: "matchHere datePattern (drop (length pre) s)" using p(1,2) by simp
    have d': "take 10 (drop (length pre) s) = d'" using p(1) l by simp
    have "\<not> length pre < i" using i(4) m by (auto simp: matchHere_datePattern)
    moreover have "\<not> i < length pre" using p(4) i(2,3) by (auto simp: matchHere_datePattern)
    ultimately have "i = length pre" by simp
    then show ?thesis using Some d' i(2) by simp
  qed
qed

lemma dateMatch_None_iff: "dateMatch s = None \<longleftrightarrow> (\<forall>d. \<not> spec_first_date s d)"
  by (metis dateMatch_Some_iff not_None_eq)

lemma inRange_spec: "inRange settings s e f = spec_selected settings s e f"
  by (auto simp: inRange_def spec_selected_def startsWith_def dateMatch_Some_iff [symmetric]
      split: option.splits)

lemma total_preorder_codeUnitCompare: "total_preorder codeUnitCompare"
  by (auto simp: total_preorder_def codeUnitCompare_def split: if_splits)

lemma scenario_select:
  "getJournalFilesInRange codeUnitCompare DEFAULT_SETTINGS scenarioVault
     ''2025-10-01'' ''2025-10-02'' = Inr [journalFile ''2025-10-01'', journalFile ''2025-10-02'']"
  by (simp add: getJournalFilesInRange_def getAbstractFileByPath_def DEFAULT_SETTINGS_def
      scenarioVault_def journalFile_def getMarkdownFiles_def inRange_def startsWith_def
      dateMatch_def datePattern_def sort_cmp_def codeUnitCompare_def)

lemma pathExists_scenario: "pathExists scenarioVault (journalFolder DEFAULT_SETTINGS)"
  by (simp add: pathExists_def getAbstractFileByPath_def DEFAULT_SETTINGS_def
      scenarioVault_def journalFile_def)


section \<open>Range selection: the claims\<close>

text \<open>
  Claim C1, with the condition the source checks first. When the journal folder
  exists in the store (something is at its path) and the collation is a total
  preorder, range selection returns a list that holds exactly the files whose path starts
  with the journal folder and whose basename contains a date-shaped substring, the
  first of which lies between the start and the end in the lexicographic order of
  strings (each file as often as the store lists it), and the list is in ascending
  order of the basenames under the collation.
\<close>

theorem getJournalFilesInRange_selects:
  assumes "total_preorder localeCompare"
    and "pathExists v (journalFolder settings)"
  shows "\<exists>r. getJournalFilesInRange localeCompare settings v startDate endDate = Inr r \<and>
           mset r = filter_mset (spec_selected settings startDate endDate)
                      (mset (getMarkdownFiles v)) \<and>
           sorted_wrt (\<lambda>a b. localeCompare (basename a) (basename b) \<le> 0) r"
proof -
  let ?cmp = "\<lambda>a b. localeCompare (basename a) (basename b)"
  let ?sel = "filter (inRange settings startDate endDate) (getMarkdownFiles v)"
  have tp: "total_preorder ?cmp"
    using assms(1) unfolding total_preorder_def by blast
  have "getJournalFilesInRange localeCompare settings v startDate endDate
          = Inr (sort_cmp ?cmp ?sel)"
    using assms(2) by (auto simp: getJournalFilesInRange_def pathExists_def)
  moreover have "mset (sort_cmp ?cmp ?sel)
      = filter_mset (spec_selected settings startDate endDate) (mset (getMarkdownFiles v))"
    by (simp add: mset_sort_cmp inRange_spec [abs_def])
  moreover have "sorted_wrt (\<lambda>a b. ?cmp a b \<le> 0) (sort_cmp ?cmp ?sel)"
    using tp by (rule sorted_sort_cmp)
  ultimately show ?thesis by blast
qed

theorem getJournalFilesInRange_selects_witness:
  "total_preorder codeUnitCompare \<and> pathExists scenarioVault (journalFolder DEFAULT_SETTINGS) \<and>
   getJournalFilesInRange codeUnitCompare DEFAULT_SETTINGS scenarioVault
     ''2025-10-01'' ''2025-10-02'' = Inr [journalFile ''2025-10-01'', journalFile ''2025-10-02''] \<and>
   mset [journalFile ''2025-10-01'', journalFile ''2025-10-02'']
     = filter_mset (spec_selected DEFAULT_SETTINGS ''2025-10-01'' ''2025-10-02'')
         (mset (getMarkdownFiles scenarioVault)) \<and>
   sorted_wrt (\<lambda>a b. codeUnitCompare (basename a) (basename b) \<le> 0)
     [journalFile ''2025-10-01'', journalFile ''2025-10-02'']"
  using getJournalFilesInRange_selects [OF total_preorder_codeUnitCompare pathExists_scenario,
      of "''2025-10-01''" "''2025-10-02''"]
    total_preorder_codeUnitCompare pathExists_scenario
  by (auto simp: scenario_select)

text \<open>
  Without that condition the selection fails, whatever the files: in a vault with the
  folder \<open>journal-archive\<close> and no folder \<open>journal\<close>, the file
  \<open>journal-archive/2025-10-01.md\<close> has a path that starts with \<open>journal\<close> and a
  date in the range, and range selection throws instead of returning it.
\<close>

theorem getJournalFilesInRange_selects_counterexample:
  "getMarkdownFiles archiveVault = [archivedFile] \<and>
   spec_selected DEFAULT_SETTINGS ''2025-10-01'' ''2025-10-02'' archivedFile \<and>
   getJournalFilesInRange codeUnitCompare DEFAULT_SETTINGS archiveVault
     ''2025-10-01'' ''2025-10-02'' = Inl (Error ''Journal folder not found: journal'')"
proof -
  have "inRange DEFAULT_SETTINGS ''2025-10-01'' ''2025-10-02'' archivedFile"
    by (simp add: inRange_def DEFAULT_SETTINGS_def archivedFile_def startsWith_def
        dateMatch_def datePattern_def)
  then have "spec_selected DEFAULT_SETTINGS ''2025-10-01'' ''2025-10-02'' archivedFile"
    by (simp only: inRange_spec)
  moreover have "getMarkdownFiles archiveVault = [archivedFile]"
    by (simp add: getMarkdownFiles_def archiveVault_def archivedFile_def)
  moreover have "getJournalFilesInRange codeUnitCompare DEFAULT_SETTINGS archiveVault
     ''2025-10-01'' ''2025-10-02'' = Inl (Error ''Journal folder not found: journal'')"
    by (simp add: getJournalFilesInRange_def getAbstractFileByPath_def archiveVault_def
        archivedFile_def DEFAULT_SETTINGS_def)
  ultimately show ?thesis by simp
qed

lemma scenario_none_selected:
  "\<forall>f \<in> set (getMarkdownFiles scenarioVault).
      \<not> spec_selected DEFAULT_SETTINGS ''2026-01-01'' ''2026-12-31'' f"
  unfolding inRange_spec [symmetric]
  by (simp add: DEFAULT_SETTINGS_def scenarioVault_def journalFile_def getMarkdownFiles_def
      inRange_def startsWith_def dateMatch_def datePattern_def)


lemma getAbstractFileByPath_None_iff:
  "getAbstractFileByPath v p = None \<longleftrightarrow> \<not> folderExists v p \<and> \<not> noteAt v p"
proof (cases "find (\<lambda>e. path (fst e) = p) (fileList v)")
  case None
  then have "\<not> noteAt v p"
    by (auto simp: find_None_iff noteAt_def)
  with None show ?thesis
    by (simp add: getAbstractFileByPath_def folderExists_def)
next
  case (Some e)
  then have "e \<in> set (fileList v) \<and> path (fst e) = p"
    by (auto simp: find_Some_iff in_set_conv_nth)
  then have "noteAt v p"
    by (auto simp: noteAt_def)
  with Some show ?thesis
    by (simp add: getAbstractFileByPath_def)
qed

lemma scenario_folderExists: "folderExists scenarioVault (journalFolder DEFAULT_SETTINGS)"
  by (simp add: folderExists_def scenarioVault_def DEFAULT_SETTINGS_def)

lemma emptyVault_nothing:
  "\<not> folderExists emptyVault p \<and> \<not> noteAt emptyVault p"
  by (simp add: folderExists_def noteAt_def emptyVault_def)

lemma noteSettings_noteAt:
  "\<not> folderExists scenarioVault (journalFolder noteSettings) \<and>
   noteAt scenarioVault (journalFolder noteSettings)"
  by (simp add: folderExists_def noteAt_def scenarioVault_def noteSettings_def journalFile_def)

lemma noteSettings_none_selected:
  "\<forall>f \<in> set (getMarkdownFiles scenarioVault).
      \<not> spec_selected noteSettings ''2026-01-01'' ''2026-12-31'' f"
  unfolding inRange_spec [symmetric]
  by (simp add: noteSettings_def DEFAULT_SETTINGS_def scenarioVault_def journalFile_def
      getMarkdownFiles_def inRange_def startsWith_def dateMatch_def datePattern_def)


text \<open>
  Claim C7, with what the source checks. The source looks up the path of the
  journal folder in the store and fails when nothing is there; it does not ask
  whether what it finds is a folder. So: when a folder or a note is at the journal
  folder's path, range selection returns a list, and the empty list when no
  markdown file is selected; it fails exactly when neither a folder nor a note is
  at that path, and then with the error that the journal folder was not found.
\<close>

theorem getJournalFilesInRange_folder:
  "((folderExists v (journalFolder settings) \<or> noteAt v (journalFolder settings)) \<and>
      (\<forall>f \<in> set (getMarkdownFiles v). \<not> spec_selected settings startDate endDate f)
    \<longrightarrow> getJournalFilesInRange localeCompare settings v startDate endDate = Inr []) \<and>
   (folderExists v (journalFolder settings) \<or> noteAt v (journalFolder settings)
    \<longrightarrow> (\<exists>files. getJournalFilesInRange localeCompare settings v startDate endDate
                   = Inr files)) \<and>
   ((\<exists>e. getJournalFilesInRange localeCompare settings v startDate endDate = Inl e)
      \<longleftrightarrow> \<not> folderExists v (journalFolder settings) \<and> \<not> noteAt v (journalFolder settings)) \<and>
   (\<not> folderExists v (journalFolder settings) \<and> \<not> noteAt v (journalFolder settings)
    \<longrightarrow> getJournalFilesInRange localeCompare settings v startDate endDate
          = Inl (Error (''Journal folder not found: '' @ journalFolder settings)))"
proof (intro conjI impI)
  assume a: "(folderExists v (journalFolder settings) \<or> noteAt v (journalFolder settings)) \<and>
      (\<forall>f \<in> set (getMarkdownFiles v). \<not> spec_selected settings startDate endDate f)"
  then have "filter (inRange settings startDate endDate) (getMarkdownFiles v) = []"
    by (simp add: inRange_spec [abs_def])
  moreover from a have "getAbstractFileByPath v (journalFolder settings) \<noteq> None"
    unfolding getAbstractFileByPath_None_iff by blast
  ultimately show "getJournalFilesInRange localeCompare settings v startDate endDate = Inr []"
    by (auto simp: getJournalFilesInRange_def sort_cmp_def)
next
  assume "folderExists v (journalFolder settings) \<or> noteAt v (journalFolder settings)"
  then have "getAbstractFileByPath v (journalFolder settings) \<noteq> None"
    unfolding getAbstractFileByPath_None_iff by blast
  then show "\<exists>files. getJournalFilesInRange localeCompare settings v startDate endDate
                   = Inr files"
    by (auto simp: getJournalFilesInRange_def)
next
  show "(\<exists>e. getJournalFilesInRange localeCompare settings v startDate endDate = Inl e)
      \<longleftrightarrow> \<not> folderExists v (journalFolder settings) \<and> \<not> noteAt v (journalFolder settings)"
    unfolding getAbstractFileByPath_None_iff [symmetric]
    by (auto simp: getJournalFilesInRange_def split: option.splits)
next
  assume "\<not> folderExists v (journalFolder settings) \<and> \<not> noteAt v (journalFolder settings)"
  then have "getAbstractFileByPath v (journalFolder settings) = None"
    unfolding getAbstractFileByPath_None_iff .
  then show "getJournalFilesInRange localeCompare settings v startDate endDate
          = Inl (Error (''Journal folder not found: '' @ journalFolder settings))"
    by (simp add: getJournalFilesInRange_def)
qed

theorem getJournalFilesInRange_folder_witness:
  "folderExists scenarioVault (journalFolder DEFAULT_SETTINGS) \<and>
   getJournalFilesInRange codeUnitCompare DEFAULT_SETTINGS scenarioVault
     ''2026-01-01'' ''2026-12-31'' = Inr [] \<and>
   noteAt scenarioVault (journalFolder noteSettings) \<and>
   getJournalFilesInRange codeUnitCompare noteSettings scenarioVault
     ''2026-01-01'' ''2026-12-31'' = Inr [] \<and>
   \<not> folderExists emptyVault (journalFolder DEFAULT_SETTINGS) \<and>
   \<not> noteAt emptyVault (journalFolder DEFAULT_SETTINGS) \<and>
   getJournalFilesInRange codeUnitCompare DEFAULT_SETTINGS emptyVault
     ''2026-01-01'' ''2026-12-31'' = Inl (Error ''Journal folder not found: journal'')"
  using getJournalFilesInRange_folder [of scenarioVault DEFAULT_SETTINGS
      "''2026-01-01''" "''2026-12-31''" codeUnitCompare]
    getJournalFilesInRange_folder [of scenarioVault noteSettings
      "''2026-01-01''" "''2026-12-31''" codeUnitCompare]
    getJournalFilesInRange_folder [of emptyVault DEFAULT_SETTINGS
      "''2026-01-01''" "''2026-12-31''" codeUnitCompare]
    scenario_folderExists scenario_none_selected noteSettings_noteAt noteSettings_none_selected
    emptyVault_nothing [of "journalFolder DEFAULT_SETTINGS"]
  by (simp add: DEFAULT_SETTINGS_def)

text \<open>
  A folder need not exist for the selection to succeed: with the path of a note as
  the journal folder, no folder of that path is in the store, and range selection
  does not fail; it returns the note.
\<close>

theorem getJournalFilesInRange_folder_counterexample:
  "\<not> folderExists scenarioVault (journalFolder noteSettings) \<and>
   getJournalFilesInRange codeUnitCompare noteSettings scenarioVault
     ''2025-10-01'' ''2025-10-31'' = Inr [journalFile ''2025-10-01'']"
  by (simp add: folderExists_def noteSettings_def DEFAULT_SETTINGS_def scenarioVault_def
      getJournalFilesInRange_def getAbstractFileByPath_def journalFile_def getMarkdownFiles_def
      inRange_def startsWith_def dateMatch_def datePattern_def sort_cmp_def codeUnitCompare_def)

section \<open>Aggregation\<close>

lemma readJournalFiles_loop_iff:
  "readJournalFiles_loop v files acc = Inr content \<longleftrightarrow>
     (\<exists>bodies. list_all2 (\<lambda>f b. read v f = Inr b) files bodies \<and>
        content = acc @ spec_aggregate files bodies)"
proof (induction files arbitrary: acc)
  case Nil
  then show ?case by (auto simp: spec_aggregate_def spec_sections_def)
next
  case (Cons f fs)
  show ?case
  proof (cases "read v f")
    case (Inl e)
    then show ?thesis by (auto simp: list_all2_Cons1)
  next
    case (Inr b)
    then show ?thesis
      by (auto simp: Cons.IH list_all2_Cons1 spec_aggregate_def spec_sections_def entrySection_def)
  qed
qed

lemma readJournalFiles_iff:
  "readJournalFiles v files = Inr content \<longleftrightarrow>
     (\<exists>bodies. list_all2 (\<lambda>f b. read v f = Inr b) files bodies \<and>
        content = spec_aggregate files bodies)"
  by (simp add: readJournalFiles_def readJournalFiles_loop_iff)

lemma spec_aggregate_append:
  "length xs = length bs \<Longrightarrow>
     spec_aggregate (xs @ ys) (bs @ cs) = spec_aggregate xs bs @ spec_aggregate ys cs"
  by (simp add: spec_aggregate_def spec_sections_def)

lemma read_scenario:
  "read scenarioVault (journalFile ''2025-10-01'') = Inr ''first''"
  "read scenarioVault (journalFile ''2025-10-02'') = Inr ''second''"
  by (simp_all add: read_def scenarioVault_def journalFile_def)


text \<open>
  Claim C9. For files that the store can read, aggregation returns the sections of
  the files one after the other, in the order of the input and one for each file;
  a section is the header line with the file's basename, a blank line and the whole
  body. The aggregate of two lists of files one after the other is the aggregate of
  the first followed by the aggregate of the second.
\<close>

theorem readJournalFiles_sections:
  "(list_all2 (\<lambda>f b. read v f = Inr b) files bodies \<longrightarrow>
      readJournalFiles v files = Inr (concat (spec_sections files bodies)) \<and>
      length (spec_sections files bodies) = length files \<and>
      (\<forall>i < length files.
         spec_sections files bodies ! i = entrySection (basename (files ! i)) (bodies ! i))) \<and>
   (readJournalFiles v xs = Inr a \<and> readJournalFiles v ys = Inr b \<longrightarrow>
      readJournalFiles v (xs @ ys) = Inr (a @ b))"
proof (intro conjI impI)
  assume h: "list_all2 (\<lambda>f b. read v f = Inr b) files bodies"
  then show "readJournalFiles v files = Inr (concat (spec_sections files bodies))"
    unfolding readJournalFiles_iff spec_aggregate_def by blast
  from h have l: "length bodies = length files"
    by (simp add: list_all2_lengthD)
  then show "length (spec_sections files bodies) = length files"
    by (simp add: spec_sections_def)
  from l show "\<forall>i < length files.
      spec_sections files bodies ! i = entrySection (basename (files ! i)) (bodies ! i)"
    by (simp add: spec_sections_def)
next
  assume "readJournalFiles v xs = Inr a \<and> readJournalFiles v ys = Inr b"
  then obtain bs cs where
    bs: "list_all2 (\<lambda>f b. read v f = Inr b) xs bs" "a = spec_aggregate xs bs" and
    cs: "list_all2 (\<lambda>f b. read v f = Inr b) ys cs" "b = spec_aggregate ys cs"
    unfolding readJournalFiles_iff by blast
  have "list_all2 (\<lambda>f b. read v f = Inr b) (xs @ ys) (bs @ cs)"
    using bs(1) cs(1) by (rule list_all2_appendI)
  moreover have "a @ b = spec_aggregate (xs @ ys) (bs @ cs)"
    using bs cs by (simp add: spec_aggregate_append list_all2_lengthD)
  ultimately show "readJournalFiles v (xs @ ys) = Inr (a @ b)"
    unfolding readJournalFiles_iff by blast
qed

theorem readJournalFiles_sections_witness:
  "readJournalFiles scenarioVault [journalFile ''2025-10-01'', journalFile ''2025-10-02'']
     = Inr (''\<newline>\<newline>## Entry: 2025-10-01\<newline>\<newline>first\<newline>''
            @ ''\<newline>\<newline>## Entry: 2025-10-02\<newline>\<newline>second\<newline>'') \<and>
   readJournalFiles scenarioVault [journalFile ''2025-10-01'']
     = Inr ''\<newline>\<newline>## Entry: 2025-10-01\<newline>\<newline>first\<newline>'' \<and>
   readJournalFiles scenarioVault [journalFile ''2025-10-02'']
     = Inr ''\<newline>\<newline>## Entry: 2025-10-02\<newline>\<newline>second\<newline>''"
proof -
  have 1: "readJournalFiles scenarioVault [journalFile ''2025-10-01'']
     = Inr ''\<newline>\<newline>## Entry: 2025-10-01\<newline>\<newline>first\<newline>''"
    using readJournalFiles_sections [where v = scenarioVault
          and files = "[journalFile ''2025-10-01'']" and bodies = "[''first'']"]
      read_scenario
    by (simp add: spec_aggregate_def spec_sections_def entrySection_def journalFile_def)
  have 2: "readJournalFiles scenarioVault [journalFile ''2025-10-02'']
     = Inr ''\<newline>\<newline>## Entry: 2025-10-02\<newline>\<newline>second\<newline>''"
    using readJournalFiles_sections [where v = scenarioVault
          and files = "[journalFile ''2025-10-02'']" and bodies = "[''second'']"]
      read_scenario
    by (simp add: spec_aggregate_def spec_sections_def entrySection_def journalFile_def)
  have "readJournalFiles scenarioVault ([journalFile ''2025-10-01''] @ [journalFile ''2025-10-02''])
     = Inr (''\<newline>\<newline>## Entry: 2025-10-01\<newline>\<newline>first\<newline>''
            @ ''\<newline>\<newline>## Entry: 2025-10-02\<newline>\<newline>second\<newline>'')"
    using readJournalFiles_sections [where v = scenarioVault
        and xs = "[journalFile ''2025-10-01'']" and ys = "[journalFile ''2025-10-02'']"] 1 2
    by blast
  with 1 2 show ?thesis by simp
qed

section \<open>The count of entries in the footer\<close>

lemma occurrences_append:
  "pat \<noteq> [] \<Longrightarrow> occurrences pat xs + occurrences pat ys \<le> occurrences pat (xs @ ys)"
proof (induction xs)
  case Nil
  then show ?case by simp
next
  case (Cons c cs)
  have "prefix pat (c # cs) \<Longrightarrow> prefix pat (c # cs @ ys)"
    by (metis append_Cons prefix_prefix)
  with Cons show ?case by auto
qed

lemma occurrences_marker_skip:
  "occurrences entryMarker (entryMarker @ rest) = 1 + occurrences entryMarker rest"
  by (simp add: entryMarker_def)

lemma split_from_marker:
  "length (split_from entryMarker acc s) = 1 + occurrences entryMarker s"
proof (induction entryMarker acc s rule: split_from.induct)
  case (1 acc)
  then show ?case by (simp add: entryMarker_def)
next
  case (2 acc c cs)
  show ?case
  proof (cases "prefix entryMarker (c # cs)")
    case True
    then obtain rest where r: "c # cs = entryMarker @ rest"
      by (auto simp: prefix_def)
    have ne: "entryMarker \<noteq> []" by (simp add: entryMarker_def)
    have "length (split_from entryMarker acc (c # cs))
        = 1 + length (split_from entryMarker [] (drop (length entryMarker) (c # cs)))"
      using True ne by simp
    also have "\<dots> = 1 + (1 + occurrences entryMarker (drop (length entryMarker) (c # cs)))"
      using 2(1) True ne by simp
    also have "\<dots> = 1 + occurrences entryMarker (c # cs)"
      unfolding r by (simp add: occurrences_marker_skip)
    finally show ?thesis .
  next
    case False
    then show ?thesis using 2(2) by simp
  qed
qed

lemma entriesCount_occurrences: "entriesCount content = occurrences entryMarker content"
  by (simp add: entriesCount_def split_def split_from_marker [unfolded entryMarker_def]
      entryMarker_def)

lemma entryMarker_ne: "entryMarker \<noteq> []"
  by (simp add: entryMarker_def)

lemma occurrences_sublist:
  assumes "sublist entryMarker b"
  shows "1 \<le> occurrences entryMarker b"
proof -
  from assms obtain p q where b: "b = p @ entryMarker @ q"
    by (auto simp: sublist_def)
  have "1 \<le> occurrences entryMarker (entryMarker @ q)"
    by (simp add: occurrences_marker_skip)
  also have "\<dots> \<le> occurrences entryMarker p + occurrences entryMarker (entryMarker @ q)"
    by simp
  also have "\<dots> \<le> occurrences entryMarker b"
    unfolding b by (rule occurrences_append [OF entryMarker_ne])
  finally show ?thesis .
qed

lemma occurrences_entrySection:
  "1 + occurrences entryMarker b \<le> occurrences entryMarker (entrySection name b)"
proof -
  let ?o = "occurrences entryMarker"
  have h: "?o ''\<newline>\<newline>## Entry: '' = 1"
    by (simp add: entryMarker_def)
  have "?o b \<le> ?o b + ?o ''\<newline>''" by simp
  also have "\<dots> \<le> ?o (b @ ''\<newline>'')"
    by (rule occurrences_append [OF entryMarker_ne])
  also have "\<dots> \<le> ?o ''\<newline>\<newline>'' + ?o (b @ ''\<newline>'')" by simp
  also have "\<dots> \<le> ?o (''\<newline>\<newline>'' @ b @ ''\<newline>'')"
    by (rule occurrences_append [OF entryMarker_ne])
  also have "\<dots> \<le> ?o name + ?o (''\<newline>\<newline>'' @ b @ ''\<newline>'')" by simp
  also have "\<dots> \<le> ?o (name @ ''\<newline>\<newline>'' @ b @ ''\<newline>'')"
    by (rule occurrences_append [OF entryMarker_ne])
  finally have "1 + ?o b \<le> ?o ''\<newline>\<newline>## Entry: ''
      + ?o (name @ ''\<newline>\<newline>'' @ b @ ''\<newline>'')"
    using h by simp
  also have "\<dots> \<le> ?o (''\<newline>\<newline>## Entry: '' @ name @ ''\<newline>\<newline>'' @ b @ ''\<newline>'')"
    by (rule occurrences_append [OF entryMarker_ne])
  finally show ?thesis by (simp add: entrySection_def)
qed

lemma occurrences_spec_aggregate:
  "length files = length bodies \<Longrightarrow>
     length files + sum_list (map (occurrences entryMarker) bodies)
       \<le> occurrences entryMarker (spec_aggregate files bodies)"
proof (induction files bodies rule: list_induct2)
  case Nil
  then show ?case by (simp add: spec_aggregate_def spec_sections_def entryMarker_def)
next
  case (Cons f fs b bs)
  let ?o = "occurrences entryMarker"
  have "spec_aggregate (f # fs) (b # bs) = entrySection (basename f) b @ spec_aggregate fs bs"
    by (simp add: spec_aggregate_def spec_sections_def)
  moreover have "?o (entrySection (basename f) b) + ?o (spec_aggregate fs bs)
      \<le> ?o (entrySection (basename f) b @ spec_aggregate fs bs)"
    by (rule occurrences_append [OF entryMarker_ne])
  ultimately show ?case
    using Cons.IH occurrences_entrySection [of b "basename f"] by simp
qed

lemma read_quoting:
  "read quotingVault (journalFile ''2025-10-05'') = Inr ''I wrote: ## Entry: draft''"
  by (simp add: read_def quotingVault_def journalFile_def)

lemma readJournalFiles_quoting:
  "readJournalFiles quotingVault [journalFile ''2025-10-05'']
     = Inr ''\<newline>\<newline>## Entry: 2025-10-05\<newline>\<newline>I wrote: ## Entry: draft\<newline>''"
  by (simp add: readJournalFiles_def read_quoting) (simp add: journalFile_def)

lemma entriesCount_quoting:
  "entriesCount ''\<newline>\<newline>## Entry: 2025-10-05\<newline>\<newline>I wrote: ## Entry: draft\<newline>'' = 2"
  by (simp add: entriesCount_def split_def)

lemma sublist_quoting: "sublist ''## Entry:'' ''I wrote: ## Entry: draft''"
  unfolding sublist_def
  by (intro exI [of _ "''I wrote: ''"] exI [of _ "'' draft''"]) simp


lemma analyzeWithClaudeCode_answer:
  assumes "themeRun env settings tmp content startDate endDate stdout"
    and "\<not> spec_blank stdout"
  shows "analyzeWithClaudeCode env settings tmp content startDate endDate
     = (Inr (withFooter env stdout content), tmp(themeTempFile env := None))"
proof -
  from assms(1) obtain stderr where
    w: "writeFileFails env = None" and u: "unlinkFails env = None"
    and x: "execAsync env (commandLine settings (themeTempFile env))
          (tmp(themeTempFile env \<mapsto> themePrompt content startDate endDate))
          = Resolved stdout stderr"
    unfolding themeRun_def by blast
  have nb: "\<not> (stdout = [] \<or> length (trim stdout) = 0)"
    using assms(2) blank_check [of stdout] by blast
  show ?thesis
    unfolding analyzeWithClaudeCode_def Let_def
    by (simp only: writeFile_ok [OF w] unlink_written [OF u] x nb
        sum.case ExecResult.case if_False)
qed

lemma themeRun_answering:
  "themeRun (answeringEnv out) settings tmp content startDate endDate out"
  by (simp add: themeRun_def answeringEnv_def)

lemma not_blank_Themes: "\<not> spec_blank ''# Themes''"
  by (simp add: spec_blank_def isWhiteSpace_def)

lemma trim_Themes: "trim ''# Themes'' = ''# Themes''"
  by (simp add: trim_def isWhiteSpace_def)

lemma natToString_2: "natToString 2 = ''2''"
  by (simp add: natToString.simps)


text \<open>
  Claim C10. In a run in which the process answers, the analysis that
  \<open>analyzeWithClaudeCode\<close> returns is the answer followed by the footer, and the
  count of entries the footer reports is the number of pieces into which the
  literal \<open>## Entry:\<close> splits the aggregated text, less one, which is the number of
  places at which the literal occurs in it. The count is never below the number of
  files; when the body of some file contains the literal, it exceeds the number of
  files, so it equals the number of files only when no body contains the literal.
\<close>

theorem entriesCount_exceeds:
  assumes "readJournalFiles v files = Inr content"
    and "themeRun env settings tmp content startDate endDate stdout"
    and "\<not> spec_blank stdout"
  shows "\<exists>n. fst (analyzeWithClaudeCode env settings tmp content startDate endDate)
             = Inr (trim stdout @ ''\<newline>\<newline>---\<newline>*Generated by Journal Analyzer Plugin*\<newline>''
                      @ ''*Entries analyzed: '' @ natToString n @ ''*\<newline>''
                      @ ''*Generated: '' @ localeString env @ ''*'') \<and>
           n = length (split content ''## Entry:'') - 1 \<and>
           n = occurrences ''## Entry:'' content \<and>
           length files \<le> n \<and>
           ((\<exists>f \<in> set files. \<exists>b. read v f = Inr b \<and> sublist ''## Entry:'' b)
              \<longrightarrow> length files < n) \<and>
           (n = length files
              \<longrightarrow> (\<forall>f \<in> set files. \<forall>b. read v f = Inr b \<longrightarrow> \<not> sublist ''## Entry:'' b))"
proof -
  from assms(1) obtain bodies where
    bodies: "list_all2 (\<lambda>f b. read v f = Inr b) files bodies"
    and content: "content = spec_aggregate files bodies"
    unfolding readJournalFiles_iff by blast
  have len: "length files = length bodies"
    using bodies by (rule list_all2_lengthD)
  have low: "length files + sum_list (map (occurrences entryMarker) bodies)
      \<le> entriesCount content"
    unfolding entriesCount_occurrences content
    using len by (rule occurrences_spec_aggregate)
  have more: "length files < entriesCount content"
    if f: "f \<in> set files" and b: "read v f = Inr b" and s: "sublist ''## Entry:'' b" for f b
  proof -
    from f obtain i where i: "i < length files" "files ! i = f"
      by (auto simp: in_set_conv_nth)
    with bodies have "read v f = Inr (bodies ! i)"
      by (auto simp: list_all2_conv_all_nth)
    with b have "bodies ! i = b" by simp
    with i len have "b \<in> set bodies" by (auto simp: in_set_conv_nth)
    then have "occurrences entryMarker b \<le> sum_list (map (occurrences entryMarker) bodies)"
      by (simp add: member_le_sum_list)
    moreover have "sublist entryMarker b"
      using s by (simp add: entryMarker_def)
    then have "1 \<le> occurrences entryMarker b"
      by (rule occurrences_sublist)
    ultimately show ?thesis using low by simp
  qed
  have out: "fst (analyzeWithClaudeCode env settings tmp content startDate endDate)
      = Inr (trim stdout @ ''\<newline>\<newline>---\<newline>*Generated by Journal Analyzer Plugin*\<newline>''
               @ ''*Entries analyzed: '' @ natToString (entriesCount content) @ ''*\<newline>''
               @ ''*Generated: '' @ localeString env @ ''*'')"
    unfolding analyzeWithClaudeCode_answer [OF assms(2) assms(3)]
    by (simp add: withFooter_def)
  have split: "entriesCount content = length (split content ''## Entry:'') - 1"
    by (simp add: entriesCount_def)
  have occ: "entriesCount content = occurrences ''## Entry:'' content"
    using entriesCount_occurrences [of content] by (simp add: entryMarker_def)
  have ge: "length files \<le> entriesCount content"
    using low by simp
  have gt: "(\<exists>f \<in> set files. \<exists>b. read v f = Inr b \<and> sublist ''## Entry:'' b)
      \<longrightarrow> length files < entriesCount content"
    using more by blast
  have eq: "entriesCount content = length files
      \<longrightarrow> (\<forall>f \<in> set files. \<forall>b. read v f = Inr b \<longrightarrow> \<not> sublist ''## Entry:'' b)"
    using more by fastforce
  from out split occ ge gt eq show ?thesis by blast
qed

theorem entriesCount_exceeds_witness:
  "readJournalFiles quotingVault [journalFile ''2025-10-05'']
     = Inr ''\<newline>\<newline>## Entry: 2025-10-05\<newline>\<newline>I wrote: ## Entry: draft\<newline>'' \<and>
   sublist ''## Entry:'' ''I wrote: ## Entry: draft'' \<and>
   fst (analyzeWithClaudeCode (answeringEnv ''# Themes'') DEFAULT_SETTINGS Map.empty
          ''\<newline>\<newline>## Entry: 2025-10-05\<newline>\<newline>I wrote: ## Entry: draft\<newline>''
          ''2025-10-05'' ''2025-10-05'')
     = Inr (''# Themes\<newline>\<newline>---\<newline>*Generated by Journal Analyzer Plugin*\<newline>''
              @ ''*Entries analyzed: 2*\<newline>*Generated: 11/3/2025, 9:00:00 AM*'') \<and>
   length [journalFile ''2025-10-05'']
     < entriesCount ''\<newline>\<newline>## Entry: 2025-10-05\<newline>\<newline>I wrote: ## Entry: draft\<newline>'' \<and>
   entriesCount ''\<newline>\<newline>## Entry: 2025-10-05\<newline>\<newline>I wrote: ## Entry: draft\<newline>'' = 2"
proof -
  let ?content = "''\<newline>\<newline>## Entry: 2025-10-05\<newline>\<newline>I wrote: ## Entry: draft\<newline>''"
  from entriesCount_exceeds [OF readJournalFiles_quoting
      themeRun_answering [of "''# Themes''" DEFAULT_SETTINGS Map.empty ?content
        "''2025-10-05''" "''2025-10-05''"] not_blank_Themes]
  obtain n where
    out: "fst (analyzeWithClaudeCode (answeringEnv ''# Themes'') DEFAULT_SETTINGS Map.empty
            ?content ''2025-10-05'' ''2025-10-05'')
       = Inr (trim ''# Themes'' @ ''\<newline>\<newline>---\<newline>*Generated by Journal Analyzer Plugin*\<newline>''
                @ ''*Entries analyzed: '' @ natToString n @ ''*\<newline>''
                @ ''*Generated: '' @ localeString (answeringEnv ''# Themes'') @ ''*'')"
    and n: "n = length (split ?content ''## Entry:'') - 1"
    and gt: "(\<exists>f \<in> set [journalFile ''2025-10-05'']. \<exists>b.
               read quotingVault f = Inr b \<and> sublist ''## Entry:'' b)
             \<longrightarrow> length [journalFile ''2025-10-05''] < n"
    by blast
  have n2: "n = 2"
    using n entriesCount_quoting by (simp only: entriesCount_def)
  have "length [journalFile ''2025-10-05''] < n"
    using gt read_quoting sublist_quoting by auto
  then have lt: "length [journalFile ''2025-10-05''] < entriesCount ?content"
    unfolding n2 entriesCount_quoting .
  have loc: "localeString (answeringEnv ''# Themes'') = ''11/3/2025, 9:00:00 AM''"
    by (simp add: answeringEnv_def)
  from out have "fst (analyzeWithClaudeCode (answeringEnv ''# Themes'') DEFAULT_SETTINGS
        Map.empty ?content ''2025-10-05'' ''2025-10-05'')
     = Inr (''# Themes\<newline>\<newline>---\<newline>*Generated by Journal Analyzer Plugin*\<newline>''
              @ ''*Entries analyzed: 2*\<newline>*Generated: 11/3/2025, 9:00:00 AM*'')"
    unfolding n2 trim_Themes natToString_2 loc by simp
  with readJournalFiles_quoting sublist_quoting lt entriesCount_quoting
  show ?thesis by simp
qed

section \<open>Parsing the response\<close>

lemma dropWhile_neq_append:
  "a \<notin> set xs \<Longrightarrow> dropWhile (\<lambda>c. c \<noteq> a) (xs @ a # ys) = a # ys"
  by (induction xs) auto

lemma jsonMatch_region: "spec_region s r \<Longrightarrow> jsonMatch s = Some r"
proof -
  assume "spec_region s r"
  then obtain pre mid post where s: "s = pre @ ''['' @ mid @ '']'' @ post"
    and pre: "CHR ''['' \<notin> set pre" and post: "CHR '']'' \<notin> set post"
    and r: "r = ''['' @ mid @ '']''"
    unfolding spec_region_def by blast
  have d: "dropWhile (\<lambda>c. c \<noteq> CHR ''['') s = CHR ''['' # (mid @ CHR '']'' # post)"
    using pre unfolding s by (simp add: dropWhile_neq_append)
  have "rev (mid @ CHR '']'' # post) = rev post @ (CHR '']'' # rev mid)" by simp
  then have "dropWhile (\<lambda>c. c \<noteq> CHR '']'') (rev (mid @ CHR '']'' # post)) = CHR '']'' # rev mid"
    using post by (simp add: dropWhile_neq_append)
  then show ?thesis
    unfolding jsonMatch_def d r by simp
qed

lemma region_jsonMatch: "jsonMatch s = Some r \<Longrightarrow> spec_region s r"
proof -
  assume m: "jsonMatch s = Some r"
  let ?pre = "takeWhile (\<lambda>c. c \<noteq> CHR ''['') s"
  from m obtain b rest where d: "dropWhile (\<lambda>c. c \<noteq> CHR ''['') s = b # rest"
    by (auto simp: jsonMatch_def split: list.splits)
  then have b: "b = CHR ''[''"
    using hd_dropWhile [of "\<lambda>c. c \<noteq> CHR ''[''" s] by fastforce
  have s: "s = ?pre @ CHR ''['' # rest"
    using takeWhile_dropWhile_id [of "\<lambda>c. c \<noteq> CHR ''[''" s] d b by simp
  from m d have close: "CHR '']'' \<in> set rest"
    and r: "r = b # rev (dropWhile (\<lambda>c. c \<noteq> CHR '']'') (rev rest))"
    by (auto simp: jsonMatch_def split: if_splits)
  let ?post = "rev (takeWhile (\<lambda>c. c \<noteq> CHR '']'') (rev rest))"
  let ?dw = "dropWhile (\<lambda>c. c \<noteq> CHR '']'') (rev rest)"
  from close have "?dw \<noteq> []" by simp
  then obtain x xs where dw: "?dw = x # xs" by (cases ?dw) auto
  then have x: "x = CHR '']''"
    using hd_dropWhile [of "\<lambda>c. c \<noteq> CHR '']''" "rev rest"] by fastforce
  have "rev rest = takeWhile (\<lambda>c. c \<noteq> CHR '']'') (rev rest) @ ?dw" by simp
  then have "rest = rev ?dw @ ?post"
    by (metis rev_append rev_rev_ident)
  then have rest: "rest = rev xs @ CHR '']'' # ?post"
    using dw x by simp
  have post: "CHR '']'' \<notin> set ?post"
    using set_takeWhileD [of "CHR '']''" "\<lambda>c. c \<noteq> CHR '']''" "rev rest"] by auto
  have pre: "CHR ''['' \<notin> set ?pre"
    using set_takeWhileD [of "CHR ''[''" "\<lambda>c. c \<noteq> CHR ''[''" s] by auto
  have "s = ?pre @ ''['' @ rev xs @ '']'' @ ?post"
    using s rest by simp
  moreover have "r = ''['' @ rev xs @ '']''"
    using r b dw x by simp
  ultimately show ?thesis
    unfolding spec_region_def using pre post by blast
qed

lemma jsonMatch_Some_iff: "jsonMatch s = Some r \<longleftrightarrow> spec_region s r"
  by (blast intro: jsonMatch_region region_jsonMatch)


lemma analyzeConnections_answer:
  assumes "connectionRun env settings v tmp currentFile allFiles stdout"
    and "\<not> spec_blank stdout"
  shows "analyzeConnections JSON_parse ToNumber env settings v tmp currentFile allFiles =
     (case parseResponse JSON_parse ToNumber settings stdout of
        Inl e \<Rightarrow> Inl (Error (''Failed to analyze connections: '' @ message e))
      | Inr connections \<Rightarrow> Inr connections,
      tmp(connectionTempFile env := None))"
proof -
  from assms(1) obtain ctx stderr where
    c: "connectionContext v currentFile allFiles = Inr ctx"
    and w: "writeFileFails env = None" and u: "unlinkFails env = None"
    and x: "execAsync env (commandLine settings (connectionTempFile env))
          (tmp(connectionTempFile env \<mapsto> connectionPrompt env settings currentFile ctx))
          = Resolved stdout stderr"
    unfolding connectionRun_def by blast
  have nb: "\<not> (stdout = [] \<or> length (trim stdout) = 0)"
    using assms(2) blank_check [of stdout] by blast
  show ?thesis
  proof (cases "parseResponse JSON_parse ToNumber settings stdout")
    case (Inl e)
    show ?thesis
      unfolding analyzeConnections_def c Let_def
      by (simp only: writeFile_ok [OF w] unlink_written [OF u] x nb Inl
          sum.case ExecResult.case if_False error.sel)
  next
    case (Inr cs)
    show ?thesis
      unfolding analyzeConnections_def c Let_def
      by (simp only: writeFile_ok [OF w] unlink_written [OF u] x nb Inr
          sum.case ExecResult.case if_False)
  qed
qed

lemma not_blank_if_bracket: "CHR ''['' \<in> set out \<Longrightarrow> \<not> spec_blank out"
proof
  assume a: "CHR ''['' \<in> set out" and b: "spec_blank out"
  then have "isWhiteSpace CHR ''[''" unfolding spec_blank_def by blast
  then show False by (simp add: isWhiteSpace_def)
qed

lemma not_blank_if_region: "spec_region out r \<Longrightarrow> \<not> spec_blank out"
proof -
  assume "spec_region out r"
  then obtain pre mid post where "out = pre @ ''['' @ mid @ '']'' @ post"
    unfolding spec_region_def by blast
  then have "CHR ''['' \<in> set out" by simp
  then show ?thesis by (rule not_blank_if_bracket)
qed

lemma getConfidence_not_null:
  "c \<noteq> JNull \<Longrightarrow>
     \<exists>x. getConfidence c = Inr x \<and>
         greaterEqual (toNumber ToNumber x) t = spec_passes ToNumber t c"
proof (cases c)
  case (JObject properties)
  then show ?thesis
    by (cases "map_of properties ''confidence''")
      (simp_all add: getConfidence_def toNumber_def greaterEqual_def)
qed (simp_all add: getConfidence_def toNumber_def greaterEqual_def)

lemma filterByConfidence_no_null:
  "JNull \<notin> set elements \<Longrightarrow>
     filterByConfidence ToNumber t elements = Inr (filter (spec_passes ToNumber t) elements)"
proof (induction elements)
  case Nil
  then show ?case by simp
next
  case (Cons c cs)
  then have "c \<noteq> JNull" by auto
  from getConfidence_not_null [OF this, of ToNumber t] obtain x where
    "getConfidence c = Inr x"
    "greaterEqual (toNumber ToNumber x) t = spec_passes ToNumber t c"
    by blast
  with Cons show ?case by simp
qed


lemma spec_passes_record: "spec_passes ToNumber t (recordJson c) = (t \<le> confidence c)"
  by (simp add: recordJson_def toNumber_def greaterEqual_def)

lemma filter_records:
  "filter (spec_passes ToNumber t) (map recordJson records)
     = map recordJson (filter (\<lambda>c. t \<le> confidence c) records)"
  by (induction records) (simp_all add: spec_passes_record)

lemma no_null_records: "JNull \<notin> set (map recordJson records)"
  by (auto simp: recordJson_def)

lemma recordJson_inject: "recordJson a = recordJson b \<Longrightarrow> a = b"
  by (cases a, cases b) (simp add: recordJson_def)

lemma parseResponse_array:
  assumes "spec_region stdout r" and "JSON_parse r = Inr (JArray elements)"
  shows "parseResponse JSON_parse ToNumber settings stdout
     = filterByConfidence ToNumber (connectionMinConfidence settings) elements"
proof -
  from assms(1) have "jsonMatch stdout = Some r" by (rule jsonMatch_region)
  with assms(2) show ?thesis by (simp add: parseResponse_def)
qed



subsection \<open>The responses of the examples\<close>






lemma region_boundary: "spec_region boundaryResponse boundaryResponse"
  unfolding jsonMatch_Some_iff [symmetric]
  by (simp add: jsonMatch_def boundaryResponse_def recordText_def)

lemma region_mixed: "spec_region mixedResponse mixedResponse"
  unfolding jsonMatch_Some_iff [symmetric]
  by (simp add: jsonMatch_def mixedResponse_def)




lemma boundaryDecoder_array:
  "boundaryDecoder boundaryResponse
     = Inr (JArray (map recordJson [connectionWith 70, connectionWith 69, connectionWith 95]))"
  by (simp add: boundaryDecoder_def decoderOf_def)

lemma mixedDecoder_array:
  "mixedDecoder mixedResponse
     = Inr (JArray [JNumber (Finite 1), JString ''x'',
                    JObject [(''confidence'', JNumber (Finite 80))],
                    JObject [(''confidence'', JNumber (Finite (25 / 2)))],
                    JObject []])"
  by (simp add: mixedDecoder_def decoderOf_def)

lemma connectionContext_scenario:
  "\<exists>ctx. connectionContext scenarioVault (journalFile ''2025-10-01'')
      (getMarkdownFiles scenarioVault) = Inr ctx"
  by (simp add: connectionContext_def read_def scenarioVault_def journalFile_def
      getMarkdownFiles_def sort_cmp_def)


lemma threshold_default: "connectionMinConfidence DEFAULT_SETTINGS = 70"
  by (simp add: DEFAULT_SETTINGS_def)

lemma confidence_connectionWith: "confidence (connectionWith n) = n"
  by (simp add: connectionWith_def)

text \<open>
  Values that are no records, and records with no confidence, are dropped without
  an error; a confidence that is not a whole number is compared as the number it is.
\<close>

lemma parseResponse_mixed:
  "parseResponse mixedDecoder notNumeric DEFAULT_SETTINGS mixedResponse
     = Inr [JObject [(''confidence'', JNumber (Finite 80))]]"
proof -
  have "parseResponse mixedDecoder notNumeric DEFAULT_SETTINGS mixedResponse
      = filterByConfidence notNumeric (connectionMinConfidence DEFAULT_SETTINGS)
          [JNumber (Finite 1), JString ''x'',
           JObject [(''confidence'', JNumber (Finite 80))],
           JObject [(''confidence'', JNumber (Finite (25 / 2)))],
           JObject []]"
    using region_mixed mixedDecoder_array
    by (rule parseResponse_array [where JSON_parse = mixedDecoder and r = mixedResponse])
  then show ?thesis
    by (simp add: getConfidence_def toNumber_def greaterEqual_def threshold_default)
qed





lemma parseResponse_boundary:
  "parseResponse boundaryDecoder notNumeric DEFAULT_SETTINGS boundaryResponse
     = Inr (map recordJson [connectionWith 70, connectionWith 95])"
proof -
  have "parseResponse boundaryDecoder notNumeric DEFAULT_SETTINGS boundaryResponse
      = filterByConfidence notNumeric (connectionMinConfidence DEFAULT_SETTINGS)
          (map recordJson [connectionWith 70, connectionWith 69, connectionWith 95])"
    using region_boundary boundaryDecoder_array
    by (rule parseResponse_array [where JSON_parse = boundaryDecoder and r = boundaryResponse])
  then show ?thesis
    unfolding filterByConfidence_no_null [OF no_null_records] filter_records
    by (simp add: threshold_default confidence_connectionWith)
qed

lemma map_recordJson_inject: "map recordJson xs = map recordJson ys \<Longrightarrow> xs = ys"
proof (induction xs arbitrary: ys)
  case Nil
  then show ?case by simp
next
  case (Cons x xs)
  then obtain y ys' where ys: "ys = y # ys'" by (cases ys) auto
  with Cons.prems have "recordJson x = recordJson y" and "map recordJson xs = map recordJson ys'"
    by simp_all
  with Cons.IH ys show ?case by (simp add: recordJson_inject)
qed


text \<open>
  Claim C8. Of the decoded records, parsing keeps a record whose confidence equals
  the threshold and drops a record whose confidence is one below it: a record is
  kept exactly when the threshold is at most its confidence. In a run in which the
  process answered with the response, the kept records are what
  \<open>analyzeConnections\<close> returns.
\<close>

theorem confidence_filter_inclusive:
  assumes "spec_region stdout r" and "JSON_parse r = Inr (JArray (map recordJson records))"
    and "c \<in> set records"
  shows "\<exists>kept. parseResponse JSON_parse ToNumber settings stdout = Inr (map recordJson kept) \<and>
           (confidence c = connectionMinConfidence settings \<longrightarrow> c \<in> set kept) \<and>
           (confidence c = connectionMinConfidence settings - 1 \<longrightarrow> c \<notin> set kept) \<and>
           (c \<in> set kept \<longleftrightarrow> connectionMinConfidence settings \<le> confidence c) \<and>
           (connectionRun env settings v tmp currentFile allFiles stdout \<longrightarrow>
              fst (analyzeConnections JSON_parse ToNumber env settings v tmp currentFile allFiles)
                = Inr (map recordJson kept))"
proof -
  let ?kept = "filter (\<lambda>c. connectionMinConfidence settings \<le> confidence c) records"
  have "parseResponse JSON_parse ToNumber settings stdout
      = filterByConfidence ToNumber (connectionMinConfidence settings) (map recordJson records)"
    using assms(1) assms(2)
    by (rule parseResponse_array [where JSON_parse = JSON_parse and r = r])
  then have p: "parseResponse JSON_parse ToNumber settings stdout = Inr (map recordJson ?kept)"
    unfolding filterByConfidence_no_null [OF no_null_records] filter_records .
  have nb: "\<not> spec_blank stdout"
    using assms(1) by (rule not_blank_if_region)
  have "fst (analyzeConnections JSON_parse ToNumber env settings v tmp currentFile allFiles)
      = Inr (map recordJson ?kept)"
    if run: "connectionRun env settings v tmp currentFile allFiles stdout"
    unfolding analyzeConnections_answer [OF run nb] p by simp
  with p assms(3) show ?thesis
    by (intro exI [of _ ?kept]) auto
qed

theorem confidence_filter_inclusive_witness:
  "parseResponse boundaryDecoder notNumeric DEFAULT_SETTINGS boundaryResponse
     = Inr (map recordJson [connectionWith 70, connectionWith 95]) \<and>
   confidence (connectionWith 70) = connectionMinConfidence DEFAULT_SETTINGS \<and>
   connectionWith 70 \<in> set [connectionWith 70, connectionWith 95] \<and>
   confidence (connectionWith 69) = connectionMinConfidence DEFAULT_SETTINGS - 1 \<and>
   connectionWith 69 \<notin> set [connectionWith 70, connectionWith 95]"
proof -
  let ?records = "[connectionWith 70, connectionWith 69, connectionWith 95]"
  have a: "confidence (connectionWith 70) = connectionMinConfidence DEFAULT_SETTINGS"
    and b: "confidence (connectionWith 69) = connectionMinConfidence DEFAULT_SETTINGS - 1"
    by (simp_all add: connectionWith_def DEFAULT_SETTINGS_def)
  have m70: "connectionWith 70 \<in> set ?records" and m69: "connectionWith 69 \<in> set ?records"
    by simp_all
  have same: "kept = [connectionWith 70, connectionWith 95]"
    if k: "parseResponse boundaryDecoder notNumeric DEFAULT_SETTINGS boundaryResponse
             = Inr (map recordJson kept)" for kept
  proof -
    from trans [OF k [symmetric] parseResponse_boundary]
    have "map recordJson kept = map recordJson [connectionWith 70, connectionWith 95]"
      by (simp only: sum.inject)
    then show ?thesis by (rule map_recordJson_inject)
  qed
  from confidence_filter_inclusive [where stdout = boundaryResponse
      and r = boundaryResponse and JSON_parse = boundaryDecoder and ToNumber = notNumeric
      and records = ?records and c = "connectionWith 70" and settings = DEFAULT_SETTINGS,
      OF region_boundary boundaryDecoder_array m70]
  obtain kept where
    "parseResponse boundaryDecoder notNumeric DEFAULT_SETTINGS boundaryResponse
       = Inr (map recordJson kept)"
    and "confidence (connectionWith 70) = connectionMinConfidence DEFAULT_SETTINGS
           \<longrightarrow> connectionWith 70 \<in> set kept"
    by blast
  with a same have in70: "connectionWith 70 \<in> set [connectionWith 70, connectionWith 95]"
    by blast
  from confidence_filter_inclusive [where stdout = boundaryResponse
      and r = boundaryResponse and JSON_parse = boundaryDecoder and ToNumber = notNumeric
      and records = ?records and c = "connectionWith 69" and settings = DEFAULT_SETTINGS,
      OF region_boundary boundaryDecoder_array m69]
  obtain kept where
    "parseResponse boundaryDecoder notNumeric DEFAULT_SETTINGS boundaryResponse
       = Inr (map recordJson kept)"
    and "confidence (connectionWith 69) = connectionMinConfidence DEFAULT_SETTINGS - 1
           \<longrightarrow> connectionWith 69 \<notin> set kept"
    by blast
  with b same have out69: "connectionWith 69 \<notin> set [connectionWith 70, connectionWith 95]"
    by blast
  from parseResponse_boundary a in70 b out69 show ?thesis by blast
qed

section \<open>An empty response\<close>

lemma analyzeWithClaudeCode_blank:
  assumes "processWritesBlank env"
  shows "\<exists>m tmp'. analyzeWithClaudeCode env settings tmp content startDate endDate
           = (Inl (Error (''Failed to analyze with Claude Code: '' @ m)), tmp')"
proof (cases "writeFileFails env")
  case (Some m)
  then show ?thesis
    unfolding analyzeWithClaudeCode_def Let_def writeFile_def
    by (simp only: option.case sum.case error.sel) blast
next
  case None
  let ?tf = "themeTempFile env"
  let ?tmp1 = "tmp(?tf \<mapsto> themePrompt content startDate endDate)"
  from assms obtain out err where
    x: "execAsync env (commandLine settings ?tf) ?tmp1 = Resolved out err"
    and b: "spec_blank out"
    unfolding processWritesBlank_def by blast
  have w: "writeFile env tmp ?tf (themePrompt content startDate endDate) = Inr ?tmp1"
    using None by (rule writeFile_ok)
  have bl: "out = [] \<or> length (trim out) = 0"
    using b by (simp only: blank_check)
  show ?thesis
  proof (cases "unlink env ?tmp1 ?tf")
    case (Inl e)
    show ?thesis
      unfolding analyzeWithClaudeCode_def Let_def
      by (simp only: w x Inl sum.case ExecResult.case) blast
  next
    case (Inr tmp2)
    show ?thesis
      unfolding analyzeWithClaudeCode_def Let_def
      by (simp only: w x Inr bl sum.case ExecResult.case if_True) blast
  qed
qed

lemma analyzeWithClaudeCode_blank_message:
  assumes "processWritesBlank env" and "writeFileFails env = None" and "unlinkFails env = None"
  shows "analyzeWithClaudeCode env settings tmp content startDate endDate
           = (Inl (Error ''Failed to analyze with Claude Code: Claude Code returned empty response''),
              tmp(themeTempFile env := None))"
proof -
  let ?tf = "themeTempFile env"
  let ?tmp1 = "tmp(?tf \<mapsto> themePrompt content startDate endDate)"
  from assms(1) obtain out err where
    x: "execAsync env (commandLine settings ?tf) ?tmp1 = Resolved out err"
    and b: "spec_blank out"
    unfolding processWritesBlank_def by blast
  have w: "writeFile env tmp ?tf (themePrompt content startDate endDate) = Inr ?tmp1"
    using assms(2) by (rule writeFile_ok)
  have u: "unlink env ?tmp1 ?tf = Inr (tmp(?tf := None))"
    using assms(3) by (rule unlink_written)
  have bl: "out = [] \<or> length (trim out) = 0"
    using b by (simp only: blank_check)
  show ?thesis
    unfolding analyzeWithClaudeCode_def Let_def
    by (simp only: w x u bl sum.case ExecResult.case if_True) simp
qed

lemma vault_notice: "vault (notice m w) = vault w"
  by (simp add: notice_def)

lemma vault_tmpFiles_update: "vault (w\<lparr>tmpFiles := t\<rparr>) = vault w"
  by simp

lemma analyzeJournalRange_blank:
  assumes "processWritesBlank env"
  shows "vault (analyzeJournalRange localeCompare env settings w startDate endDate) = vault w"
proof (cases "getJournalFilesInRange localeCompare settings (vault w) startDate endDate")
  case (Inl e)
  show ?thesis
    unfolding analyzeJournalRange_def Let_def
    by (simp only: Inl sum.case vault_notice)
next
  case files: (Inr journalFiles)
  show ?thesis
  proof (cases "length journalFiles = 0")
    case True
    show ?thesis
      unfolding analyzeJournalRange_def Let_def
      by (simp only: files True sum.case if_True vault_notice simp_thms)
  next
    case False
    show ?thesis
    proof (cases "readJournalFiles (vault w) journalFiles")
      case (Inl e)
      show ?thesis
        unfolding analyzeJournalRange_def Let_def
        by (simp only: files False Inl sum.case if_False vault_notice)
    next
      case (Inr journalContent)
      from analyzeWithClaudeCode_blank [OF assms] obtain m tmp' where
        a: "analyzeWithClaudeCode env settings (tmpFiles w) journalContent startDate endDate
           = (Inl (Error (''Failed to analyze with Claude Code: '' @ m)), tmp')"
        by blast
      show ?thesis
        unfolding analyzeJournalRange_def Let_def
        by (simp only: files False Inr a sum.case if_False prod.case vault_notice
            vault_tmpFiles_update)
    qed
  qed
qed

lemma notices_notice: "notices (notice m w) = notices w @ [m]"
  by (simp add: notice_def)

lemma notices_tmpFiles_update: "notices (w\<lparr>tmpFiles := t\<rparr>) = notices w"
  by simp

lemma analyzeJournalRange_blank_notice:
  assumes "processWritesBlank env"
    and files: "getJournalFilesInRange localeCompare settings (vault w) startDate endDate
            = Inr journalFiles"
    and ne: "journalFiles \<noteq> []"
    and content: "readJournalFiles (vault w) journalFiles = Inr journalContent"
  shows "\<exists>m. notices (analyzeJournalRange localeCompare env settings w startDate endDate)
           = notices w @ [''Error analyzing journal: Failed to analyze with Claude Code: '' @ m]"
proof -
  from analyzeWithClaudeCode_blank [OF assms(1)] obtain m tmp' where
    a: "analyzeWithClaudeCode env settings (tmpFiles w) journalContent startDate endDate
       = (Inl (Error (''Failed to analyze with Claude Code: '' @ m)), tmp')"
    by blast
  have False: "(length journalFiles = 0) = False" using ne by simp
  have "notices (analyzeJournalRange localeCompare env settings w startDate endDate)
      = notices w @ [''Error analyzing journal: ''
           @ message (Error (''Failed to analyze with Claude Code: '' @ m))]"
    unfolding analyzeJournalRange_def Let_def
    by (simp only: files False content a sum.case if_False prod.case notices_notice
        notices_tmpFiles_update)
  then show ?thesis by simp
qed

lemma processWritesBlank_answering: "processWritesBlank (answeringEnv '' \<newline>'')"
  by (simp add: processWritesBlank_def answeringEnv_def spec_blank_def isWhiteSpace_def)

lemma readJournalFiles_scenario:
  "readJournalFiles scenarioVault [journalFile ''2025-10-01'', journalFile ''2025-10-02'']
     = Inr (''\<newline>\<newline>## Entry: 2025-10-01\<newline>\<newline>first\<newline>''
            @ ''\<newline>\<newline>## Entry: 2025-10-02\<newline>\<newline>second\<newline>'')"
  by (simp add: readJournalFiles_def read_scenario) (simp add: journalFile_def)


lemma scenario_blank_notices:
  "notices (analyzeJournalRange codeUnitCompare (answeringEnv '' \<newline>'') DEFAULT_SETTINGS
              scenarioWorld ''2025-10-01'' ''2025-10-02'')
     = [''Error analyzing journal: Failed to analyze with Claude Code: Claude Code returned empty response'']"
proof -
  let ?env = "answeringEnv '' \<newline>''"
  have fs: "writeFileFails ?env = None" "unlinkFails ?env = None"
    by (simp_all add: answeringEnv_def)
  have v: "vault scenarioWorld = scenarioVault" and n: "notices scenarioWorld = []"
    by (simp_all add: scenarioWorld_def)
  have l: "(length [journalFile ''2025-10-01'', journalFile ''2025-10-02''] = 0) = False"
    by simp
  have "notices (analyzeJournalRange codeUnitCompare ?env DEFAULT_SETTINGS
              scenarioWorld ''2025-10-01'' ''2025-10-02'')
     = notices scenarioWorld @ [''Error analyzing journal: ''
         @ message (Error
             ''Failed to analyze with Claude Code: Claude Code returned empty response'')]"
    unfolding analyzeJournalRange_def Let_def v
    by (simp only: scenario_select readJournalFiles_scenario l
        analyzeWithClaudeCode_blank_message [OF processWritesBlank_answering fs]
        sum.case if_False prod.case notices_notice notices_tmpFiles_update)
  then show ?thesis by (simp add: n)
qed

text \<open>
  Claim C4. When the external process writes nothing or only white space to its
  standard output, \<open>analyzeWithClaudeCode\<close> fails with an error (the one of the empty
  response when the temporary file could be written and removed), and the pipeline
  leaves the vault as it was: no analysis note is created at the target path, and
  the user is shown the error.
\<close>

theorem blank_output_no_note:
  assumes "processWritesBlank env"
  shows "(\<exists>m. fst (analyzeWithClaudeCode env settings tmp content startDate endDate)
            = Inl (Error (''Failed to analyze with Claude Code: '' @ m))) \<and>
         (writeFileFails env = None \<and> unlinkFails env = None \<longrightarrow>
            fst (analyzeWithClaudeCode env settings tmp content startDate endDate)
              = Inl (Error
                  ''Failed to analyze with Claude Code: Claude Code returned empty response'')) \<and>
         vault (analyzeJournalRange localeCompare env settings w startDate endDate) = vault w \<and>
         bodiesAt (vault (analyzeJournalRange localeCompare env settings w startDate endDate))
             (metaNotePath settings startDate endDate)
           = bodiesAt (vault w) (metaNotePath settings startDate endDate) \<and>
         (getJournalFilesInRange localeCompare settings (vault w) startDate endDate
              = Inr journalFiles \<and> journalFiles \<noteq> [] \<and>
            readJournalFiles (vault w) journalFiles = Inr journalContent \<longrightarrow>
          (\<exists>m. notices (analyzeJournalRange localeCompare env settings w startDate endDate)
             = notices w
                 @ [''Error analyzing journal: Failed to analyze with Claude Code: '' @ m]))"
proof (intro conjI impI)
  from analyzeWithClaudeCode_blank [OF assms] obtain m tmp' where
    "analyzeWithClaudeCode env settings tmp content startDate endDate
       = (Inl (Error (''Failed to analyze with Claude Code: '' @ m)), tmp')"
    by blast
  then have "fst (analyzeWithClaudeCode env settings tmp content startDate endDate)
            = Inl (Error (''Failed to analyze with Claude Code: '' @ m))"
    by (simp only: fst_conv)
  then show "\<exists>m. fst (analyzeWithClaudeCode env settings tmp content startDate endDate)
            = Inl (Error (''Failed to analyze with Claude Code: '' @ m))" ..
next
  assume "writeFileFails env = None \<and> unlinkFails env = None"
  then show "fst (analyzeWithClaudeCode env settings tmp content startDate endDate)
              = Inl (Error
                  ''Failed to analyze with Claude Code: Claude Code returned empty response'')"
    using analyzeWithClaudeCode_blank_message [OF assms, of settings tmp content startDate endDate]
    by (simp only: fst_conv)
next
  show v: "vault (analyzeJournalRange localeCompare env settings w startDate endDate) = vault w"
    using assms by (rule analyzeJournalRange_blank)
  show "bodiesAt (vault (analyzeJournalRange localeCompare env settings w startDate endDate))
             (metaNotePath settings startDate endDate)
           = bodiesAt (vault w) (metaNotePath settings startDate endDate)"
    by (simp only: v)
next
  assume "getJournalFilesInRange localeCompare settings (vault w) startDate endDate
              = Inr journalFiles \<and> journalFiles \<noteq> [] \<and>
            readJournalFiles (vault w) journalFiles = Inr journalContent"
  then show "\<exists>m. notices (analyzeJournalRange localeCompare env settings w startDate endDate)
             = notices w
                 @ [''Error analyzing journal: Failed to analyze with Claude Code: '' @ m]"
    using analyzeJournalRange_blank_notice [OF assms] by blast
qed

theorem blank_output_no_note_witness:
  "processWritesBlank (answeringEnv '' \<newline>'') \<and>
   fst (analyzeWithClaudeCode (answeringEnv '' \<newline>'') DEFAULT_SETTINGS Map.empty
          ''entries'' ''2025-10-01'' ''2025-10-02'')
     = Inl (Error ''Failed to analyze with Claude Code: Claude Code returned empty response'') \<and>
   vault (analyzeJournalRange codeUnitCompare (answeringEnv '' \<newline>'') DEFAULT_SETTINGS
            scenarioWorld ''2025-10-01'' ''2025-10-02'') = scenarioVault \<and>
   bodiesAt (vault (analyzeJournalRange codeUnitCompare (answeringEnv '' \<newline>'')
                      DEFAULT_SETTINGS scenarioWorld ''2025-10-01'' ''2025-10-02''))
     ''journal/meta/analysis-2025-10-01-to-2025-10-02.md'' = [] \<and>
   notices (analyzeJournalRange codeUnitCompare (answeringEnv '' \<newline>'') DEFAULT_SETTINGS
              scenarioWorld ''2025-10-01'' ''2025-10-02'')
     = [''Error analyzing journal: Failed to analyze with Claude Code: Claude Code returned empty response'']"
proof -
  note w = blank_output_no_note [OF processWritesBlank_answering,
      where settings = DEFAULT_SETTINGS and tmp = Map.empty and content = "''entries''"
        and startDate = "''2025-10-01''" and endDate = "''2025-10-02''"
        and localeCompare = codeUnitCompare and w = scenarioWorld]
  have fs: "writeFileFails (answeringEnv '' \<newline>'') = None \<and>
      unlinkFails (answeringEnv '' \<newline>'') = None"
    by (simp add: answeringEnv_def)
  have v: "vault scenarioWorld = scenarioVault" by (simp add: scenarioWorld_def)
  have p: "metaNotePath DEFAULT_SETTINGS ''2025-10-01'' ''2025-10-02''
      = ''journal/meta/analysis-2025-10-01-to-2025-10-02.md''"
    by (simp add: metaNotePath_def DEFAULT_SETTINGS_def)
  have b: "bodiesAt scenarioVault ''journal/meta/analysis-2025-10-01-to-2025-10-02.md'' = []"
    by (simp add: bodiesAt_def scenarioVault_def journalFile_def)
  from w fs show ?thesis
    using processWritesBlank_answering
    by (simp only: v p b scenario_blank_notices simp_thms)
qed

section \<open>Writing the analysis note\<close>

lemma getAbstractFileByPath_AFile:
  "getAbstractFileByPath v p = Some (AFile f) \<Longrightarrow>
     path f = p \<and> find (\<lambda>e. path (fst e) = p) (fileList v) \<noteq> None"
  by (auto simp: getAbstractFileByPath_def find_Some_iff split: option.splits if_splits)

lemma getAbstractFileByPath_folder_added:
  "p \<noteq> q \<Longrightarrow>
     getAbstractFileByPath (v\<lparr>folderList := folderList v @ [q]\<rparr>) p = getAbstractFileByPath v p"
  by (auto simp: getAbstractFileByPath_def split: option.splits)

lemma find_path_None:
  "find (\<lambda>e. path (fst e) = p) (fileList v) = None \<longleftrightarrow> p \<notin> set (notePaths v)"
  by (simp only: find_None_iff notePaths_def set_map image_iff) blast

lemma getAbstractFileByPath_note:
  "p \<in> set (notePaths v) \<Longrightarrow> \<exists>f. getAbstractFileByPath v p = Some (AFile f)"
proof -
  assume "p \<in> set (notePaths v)"
  then have "find (\<lambda>e. path (fst e) = p) (fileList v) \<noteq> None"
    by (simp only: find_path_None simp_thms)
  then obtain e where "find (\<lambda>e. path (fst e) = p) (fileList v) = Some e"
    by blast
  then show ?thesis
    by (simp add: getAbstractFileByPath_def)
qed

lemma pathExists_iff:
  "pathExists v p \<longleftrightarrow> p \<in> set (notePaths v) \<or> p \<in> set (folderList v)"
proof (cases "find (\<lambda>e. path (fst e) = p) (fileList v)")
  case None
  then show ?thesis
    using find_path_None [of p v] by (simp add: pathExists_def getAbstractFileByPath_def)
next
  case (Some e)
  then show ?thesis
    using find_path_None [of p v] by (simp add: pathExists_def getAbstractFileByPath_def)
qed

lemma metaNotePath_neq_metaFolder:
  "metaNotePath settings startDate endDate \<noteq> metaFolder settings"
  by (simp add: metaNotePath_def)

lemma ensureFolder:
  "(if getAbstractFileByPath v (metaFolder settings) = None
    then createFolder v (metaFolder settings) else Inr v) = Inr (withMetaFolder settings v)"
  by (simp add: createFolder_def withMetaFolder_def)

lemma withMetaFolder_lookup:
  "getAbstractFileByPath (withMetaFolder settings v) (metaNotePath settings startDate endDate)
   = getAbstractFileByPath v (metaNotePath settings startDate endDate)"
  by (simp add: withMetaFolder_def getAbstractFileByPath_folder_added
      metaNotePath_neq_metaFolder)

lemma withMetaFolder_fileList: "fileList (withMetaFolder settings v) = fileList v"
  by (simp add: withMetaFolder_def)

lemma withMetaFolder_exists: "pathExists (withMetaFolder settings v) (metaFolder settings)"
proof (cases "getAbstractFileByPath v (metaFolder settings) = None")
  case True
  then show ?thesis by (simp add: withMetaFolder_def pathExists_iff)
next
  case False
  then have "withMetaFolder settings v = v" by (simp only: withMetaFolder_def if_False)
  with False show ?thesis by (simp only: pathExists_def simp_thms)
qed

lemma withMetaFolder_idle:
  "pathExists v (metaFolder settings) \<Longrightarrow> withMetaFolder settings v = v"
  by (simp add: withMetaFolder_def pathExists_def)

lemma createMetaNote_creates:
  assumes "getAbstractFileByPath v (metaNotePath settings startDate endDate) = None"
  shows "createMetaNote env settings v analysis startDate endDate
           = (None, (withMetaFolder settings v)\<lparr>fileList := fileList v
                 @ [(newFile (metaNotePath settings startDate endDate) (now env),
                     frontmatter env startDate endDate @ analysis)]\<rparr>)"
proof -
  let ?v1 = "withMetaFolder settings v"
  have l: "getAbstractFileByPath ?v1 (metaNotePath settings startDate endDate) = None"
    unfolding withMetaFolder_lookup by (rule assms)
  have c: "create ?v1 (now env) (metaNotePath settings startDate endDate)
             (frontmatter env startDate endDate @ analysis)
      = Inr (?v1\<lparr>fileList := fileList v
             @ [(newFile (metaNotePath settings startDate endDate) (now env),
                 frontmatter env startDate endDate @ analysis)]\<rparr>)"
    unfolding create_def withMetaFolder_fileList by (simp only: l simp_thms if_False)
  show ?thesis
    unfolding createMetaNote_def ensureFolder Let_def
    by (simp only: l c sum.case option.case)
qed

lemma createMetaNote_replaces:
  assumes "getAbstractFileByPath v (metaNotePath settings startDate endDate) = Some (AFile f)"
  shows "createMetaNote env settings v analysis startDate endDate
           = (None, (withMetaFolder settings v)\<lparr>fileList :=
                 rewritten (metaNotePath settings startDate endDate) (now env)
                   (frontmatter env startDate endDate @ analysis) (fileList v)\<rparr>)"
proof -
  let ?p = "metaNotePath settings startDate endDate"
  let ?c = "frontmatter env startDate endDate @ analysis"
  let ?v1 = "withMetaFolder settings v"
  have l: "getAbstractFileByPath ?v1 ?p = Some (AFile f)"
    unfolding withMetaFolder_lookup by (rule assms)
  from getAbstractFileByPath_AFile [OF assms]
  have pf: "path f = ?p" and fnd: "find (\<lambda>e. path (fst e) = ?p) (fileList v) \<noteq> None"
    by blast+
  have m: "modify ?v1 (now env) f ?c
      = Inr (?v1\<lparr>fileList := rewritten ?p (now env) ?c (fileList v)\<rparr>)"
    unfolding modify_def pf withMetaFolder_fileList rewritten_def
    using fnd by (simp only: if_False)
  show ?thesis
    unfolding createMetaNote_def ensureFolder Let_def
    by (simp only: l m sum.case option.case TAbstractFile.case)
qed

lemma createMetaNote_folder_in_the_way:
  assumes "getAbstractFileByPath v (metaNotePath settings startDate endDate) = Some (AFolder q)"
  shows "fst (createMetaNote env settings v analysis startDate endDate) \<noteq> None"
proof -
  let ?v1 = "withMetaFolder settings v"
  have l: "getAbstractFileByPath ?v1 (metaNotePath settings startDate endDate) = Some (AFolder q)"
    unfolding withMetaFolder_lookup by (rule assms)
  have c: "create ?v1 (now env) (metaNotePath settings startDate endDate)
             (frontmatter env startDate endDate @ analysis) = Inl (Error ''File already exists.'')"
    unfolding create_def by (simp add: l)
  show ?thesis
    unfolding createMetaNote_def ensureFolder Let_def
    by (simp only: l c sum.case option.case TAbstractFile.case) simp
qed

lemma notePaths_rewritten:
  "map (\<lambda>e. path (fst e)) (rewritten p t c es) = map (\<lambda>e. path (fst e)) es"
  by (induction es) (auto simp: rewritten_def)

lemma bodies_rewritten:
  "map snd (filter (\<lambda>e. path (fst e) = p) (rewritten p t c es))
     = replicate (length (filter (\<lambda>e. path (fst e) = p) es)) c"
  by (induction es) (auto simp: rewritten_def)

lemma elsewhere_rewritten:
  "filter (\<lambda>e. path (fst e) \<noteq> p) (rewritten p t c es) = filter (\<lambda>e. path (fst e) \<noteq> p) es"
  by (induction es) (auto simp: rewritten_def)

lemma createMetaNote_again:
  assumes "metaNotePath settings startDate endDate \<in> set (notePaths v)"
    and "pathExists v (metaFolder settings)"
  shows "createMetaNote env settings v analysis startDate endDate
           = (None, v\<lparr>fileList :=
                 rewritten (metaNotePath settings startDate endDate) (now env)
                   (frontmatter env startDate endDate @ analysis) (fileList v)\<rparr>)"
proof -
  from getAbstractFileByPath_note [OF assms(1)] obtain f where
    "getAbstractFileByPath v (metaNotePath settings startDate endDate) = Some (AFile f)"
    by blast
  then show ?thesis
    by (simp only: createMetaNote_replaces withMetaFolder_idle [OF assms(2)])
qed

lemma bodiesAt_rewritten:
  "bodiesAt (v\<lparr>fileList := rewritten p t c (fileList v')\<rparr>) p
     = replicate (length (bodiesAt v' p)) c"
  by (simp add: bodiesAt_def bodies_rewritten)

lemma notesElsewhere_rewritten:
  "notesElsewhere (v\<lparr>fileList := rewritten p t c (fileList v')\<rparr>) p = notesElsewhere v' p"
  by (simp add: notesElsewhere_def elsewhere_rewritten)

lemma notePaths_rewritten_vault:
  "notePaths (v\<lparr>fileList := rewritten p t c (fileList v')\<rparr>) = notePaths v'"
  by (simp add: notePaths_def notePaths_rewritten)

lemma bodiesAt_absent: "p \<notin> set (notePaths v) \<Longrightarrow> bodiesAt v p = []"
  by (auto simp: bodiesAt_def notePaths_def filter_empty_conv)

lemma bodiesAt_present: "p \<in> set (notePaths v) \<Longrightarrow> bodiesAt v p \<noteq> []"
  by (auto simp: bodiesAt_def notePaths_def filter_empty_conv)

lemma filter_eq_distinct:
  "distinct xs \<Longrightarrow> p \<in> set xs \<Longrightarrow> length (filter (\<lambda>q. q = p) xs) = 1"
  by (induction xs) (auto simp: filter_empty_conv)

lemma bodiesAt_distinct:
  assumes "distinct (notePaths v)" and "p \<in> set (notePaths v)"
  shows "length (bodiesAt v p) = 1"
proof -
  have "length (bodiesAt v p) = length (filter (\<lambda>q. q = p) (notePaths v))"
    by (simp add: bodiesAt_def notePaths_def filter_map comp_def)
  also have "\<dots> = 1"
    using assms by (rule filter_eq_distinct)
  finally show ?thesis .
qed

lemma createMetaNote_success:
  assumes "createMetaNote env settings v analysis startDate endDate = (None, v1)"
  shows "metaNotePath settings startDate endDate \<in> set (notePaths v1) \<and>
         pathExists v1 (metaFolder settings) \<and>
         set (bodiesAt v1 (metaNotePath settings startDate endDate))
           = {frontmatter env startDate endDate @ analysis} \<and>
         notesElsewhere v1 (metaNotePath settings startDate endDate)
           = notesElsewhere v (metaNotePath settings startDate endDate) \<and>
         (distinct (notePaths v) \<longrightarrow> distinct (notePaths v1))"
proof -
  let ?p = "metaNotePath settings startDate endDate"
  let ?c = "frontmatter env startDate endDate @ analysis"
  let ?w = "withMetaFolder settings v"
  have wf: "pathExists ?w (metaFolder settings)" by (rule withMetaFolder_exists)
  have wn: "notePaths ?w = notePaths v" by (simp add: notePaths_def withMetaFolder_fileList)
  show ?thesis
  proof (cases "getAbstractFileByPath v ?p")
    case None
    then have absent: "?p \<notin> set (notePaths v)"
      by (simp add: getAbstractFileByPath_def find_path_None split: option.splits)
    from createMetaNote_creates [OF None, of env analysis] assms
    have v1: "v1 = ?w\<lparr>fileList := fileList v @ [(newFile ?p (now env), ?c)]\<rparr>"
      by simp
    have np: "notePaths v1 = notePaths v @ [?p]"
      by (simp add: v1 notePaths_def newFile_def)
    have fl: "folderList v1 = folderList ?w" by (simp add: v1)
    have "pathExists v1 (metaFolder settings)"
      using wf unfolding pathExists_iff np fl wn by auto
    moreover have "bodiesAt v1 ?p = [?c]"
      using bodiesAt_absent [OF absent] by (simp add: v1 bodiesAt_def newFile_def)
    moreover have "notesElsewhere v1 ?p = notesElsewhere v ?p"
      by (simp add: v1 notesElsewhere_def newFile_def)
    ultimately show ?thesis using np absent by simp
  next
    case (Some a)
    show ?thesis
    proof (cases a)
      case (AFile f)
      with Some have l: "getAbstractFileByPath v ?p = Some (AFile f)" by simp
      from getAbstractFileByPath_AFile [OF l] have present: "?p \<in> set (notePaths v)"
        by (simp add: find_path_None)
      from createMetaNote_replaces [OF l, of env analysis] assms
      have v1: "v1 = ?w\<lparr>fileList := rewritten ?p (now env) ?c (fileList v)\<rparr>"
        by simp
      have np: "notePaths v1 = notePaths v"
        unfolding v1 by (rule notePaths_rewritten_vault)
      have fl: "folderList v1 = folderList ?w" by (simp add: v1)
      have "pathExists v1 (metaFolder settings)"
        using wf unfolding pathExists_iff np fl wn by auto
      moreover have "bodiesAt v1 ?p = replicate (length (bodiesAt v ?p)) ?c"
        unfolding v1 by (rule bodiesAt_rewritten)
      moreover have "bodiesAt v ?p \<noteq> []" using present by (rule bodiesAt_present)
      moreover have "notesElsewhere v1 ?p = notesElsewhere v ?p"
        unfolding v1 by (rule notesElsewhere_rewritten)
      ultimately show ?thesis using np present by simp
    next
      case (AFolder q)
      with Some have "getAbstractFileByPath v ?p = Some (AFolder q)" by simp
      from createMetaNote_folder_in_the_way [OF this, of env analysis] assms
      show ?thesis by simp
    qed
  qed
qed

lemma frontmatter_answering:
  "frontmatter (answeringEnv out) ''2025-10-01'' ''2025-10-02''
     = ''---\<newline>date: 2025-11-03\<newline>type: journal-analysis\<newline>tags: [meta, analysis, journal]\<newline>''
       @ ''start_date: 2025-10-01\<newline>end_date: 2025-10-02\<newline>---\<newline>\<newline>''"
  by (simp add: frontmatter_def answeringEnv_def formatDate_def padStart2_def natToString.simps)

lemma scenario_no_meta_note:
  "getAbstractFileByPath scenarioVault
     (metaNotePath DEFAULT_SETTINGS ''2025-10-01'' ''2025-10-02'') = None"
  by (simp add: getAbstractFileByPath_def scenarioVault_def journalFile_def metaNotePath_def
      DEFAULT_SETTINGS_def)

lemma scenario_first_run:
  "createMetaNote (answeringEnv out) DEFAULT_SETTINGS scenarioVault ''first analysis''
       ''2025-10-01'' ''2025-10-02''
     = (None, snd (createMetaNote (answeringEnv out) DEFAULT_SETTINGS scenarioVault
                     ''first analysis'' ''2025-10-01'' ''2025-10-02''))"
  by (simp only: createMetaNote_creates [OF scenario_no_meta_note] snd_conv)

lemma distinct_scenario: "distinct (notePaths scenarioVault)"
  by (simp add: notePaths_def scenarioVault_def journalFile_def)


text \<open>
  Claim C6. The analysis note is written at the path made of the meta folder,
  \<open>/analysis-\<close>, the start date, \<open>-to-\<close>, the end date and \<open>.md\<close>. After a run
  that succeeded, a note with the run's content is at that path and the notes at
  other paths are as before; a second run over the same range succeeds, leaves the
  paths of the notes and the folders as they are, and replaces the content at that
  path. In a store whose notes have distinct paths, exactly one note is at that path
  afterwards, with the content of the second run.
\<close>

theorem createMetaNote_idempotent:
  assumes "createMetaNote env settings v analysis startDate endDate = (None, v1)"
  shows "metaNotePath settings startDate endDate
           = metaFolder settings @ ''/analysis-'' @ startDate @ ''-to-'' @ endDate @ ''.md'' \<and>
         bodiesAt v1 (metaNotePath settings startDate endDate) \<noteq> [] \<and>
         set (bodiesAt v1 (metaNotePath settings startDate endDate))
           = {frontmatter env startDate endDate @ analysis} \<and>
         notesElsewhere v1 (metaNotePath settings startDate endDate)
           = notesElsewhere v (metaNotePath settings startDate endDate) \<and>
         (\<exists>v2. createMetaNote env' settings v1 analysis' startDate endDate = (None, v2) \<and>
            notePaths v2 = notePaths v1 \<and> folderList v2 = folderList v1 \<and>
            bodiesAt v2 (metaNotePath settings startDate endDate)
              = replicate (length (bodiesAt v1 (metaNotePath settings startDate endDate)))
                  (frontmatter env' startDate endDate @ analysis') \<and>
            notesElsewhere v2 (metaNotePath settings startDate endDate)
              = notesElsewhere v1 (metaNotePath settings startDate endDate) \<and>
            (distinct (notePaths v) \<longrightarrow>
               bodiesAt v2 (metaNotePath settings startDate endDate)
                 = [frontmatter env' startDate endDate @ analysis']))"
proof -
  let ?p = "metaNotePath settings startDate endDate"
  let ?c' = "frontmatter env' startDate endDate @ analysis'"
  let ?v2 = "v1\<lparr>fileList := rewritten ?p (now env') ?c' (fileList v1)\<rparr>"
  from createMetaNote_success [OF assms]
  have present: "?p \<in> set (notePaths v1)" and folder: "pathExists v1 (metaFolder settings)"
    and bodies: "set (bodiesAt v1 ?p) = {frontmatter env startDate endDate @ analysis}"
    and elsewhere: "notesElsewhere v1 ?p = notesElsewhere v ?p"
    and distinct: "distinct (notePaths v) \<longrightarrow> distinct (notePaths v1)"
    by blast+
  have run2: "createMetaNote env' settings v1 analysis' startDate endDate = (None, ?v2)"
    using present folder by (rule createMetaNote_again)
  have b2: "bodiesAt ?v2 ?p = replicate (length (bodiesAt v1 ?p)) ?c'"
    by (rule bodiesAt_rewritten)
  have one: "distinct (notePaths v) \<longrightarrow> bodiesAt ?v2 ?p = [?c']"
  proof
    assume "distinct (notePaths v)"
    with distinct have "distinct (notePaths v1)" by blast
    then have "length (bodiesAt v1 ?p) = 1" using present by (rule bodiesAt_distinct)
    then show "bodiesAt ?v2 ?p = [?c']" unfolding b2 by simp
  qed
  have "notePaths ?v2 = notePaths v1" by (rule notePaths_rewritten_vault)
  moreover have "folderList ?v2 = folderList v1" by simp
  moreover have "notesElsewhere ?v2 ?p = notesElsewhere v1 ?p"
    by (rule notesElsewhere_rewritten)
  ultimately have "\<exists>v2. createMetaNote env' settings v1 analysis' startDate endDate = (None, v2) \<and>
            notePaths v2 = notePaths v1 \<and> folderList v2 = folderList v1 \<and>
            bodiesAt v2 ?p = replicate (length (bodiesAt v1 ?p)) ?c' \<and>
            notesElsewhere v2 ?p = notesElsewhere v1 ?p \<and>
            (distinct (notePaths v) \<longrightarrow> bodiesAt v2 ?p = [?c'])"
    using run2 b2 one by blast
  moreover have "bodiesAt v1 ?p \<noteq> []" using present by (rule bodiesAt_present)
  moreover have "?p = metaFolder settings @ ''/analysis-'' @ startDate @ ''-to-'' @ endDate @ ''.md''"
    by (simp add: metaNotePath_def)
  ultimately show ?thesis using bodies elsewhere by blast
qed

theorem createMetaNote_idempotent_witness:
  "createMetaNote (answeringEnv []) DEFAULT_SETTINGS scenarioVault ''first analysis''
       ''2025-10-01'' ''2025-10-02''
     = (None, snd (createMetaNote (answeringEnv []) DEFAULT_SETTINGS scenarioVault
                     ''first analysis'' ''2025-10-01'' ''2025-10-02'')) \<and>
   (\<exists>v2. createMetaNote (answeringEnv []) DEFAULT_SETTINGS
            (snd (createMetaNote (answeringEnv []) DEFAULT_SETTINGS scenarioVault
                    ''first analysis'' ''2025-10-01'' ''2025-10-02''))
            ''second analysis'' ''2025-10-01'' ''2025-10-02'' = (None, v2) \<and>
      notePaths v2
        = notePaths (snd (createMetaNote (answeringEnv []) DEFAULT_SETTINGS scenarioVault
                            ''first analysis'' ''2025-10-01'' ''2025-10-02'')) \<and>
      bodiesAt v2 ''journal/meta/analysis-2025-10-01-to-2025-10-02.md''
        = [''---\<newline>date: 2025-11-03\<newline>type: journal-analysis\<newline>tags: [meta, analysis, journal]\<newline>''
           @ ''start_date: 2025-10-01\<newline>end_date: 2025-10-02\<newline>---\<newline>\<newline>''
           @ ''second analysis''])"
proof -
  have p: "metaNotePath DEFAULT_SETTINGS ''2025-10-01'' ''2025-10-02''
      = ''journal/meta/analysis-2025-10-01-to-2025-10-02.md''"
    by (simp add: metaNotePath_def DEFAULT_SETTINGS_def)
  from createMetaNote_idempotent [OF scenario_first_run [of "[]"],
      where env' = "answeringEnv []" and analysis' = "''second analysis''"]
    distinct_scenario
  have "\<exists>v2. createMetaNote (answeringEnv []) DEFAULT_SETTINGS
            (snd (createMetaNote (answeringEnv []) DEFAULT_SETTINGS scenarioVault
                    ''first analysis'' ''2025-10-01'' ''2025-10-02''))
            ''second analysis'' ''2025-10-01'' ''2025-10-02'' = (None, v2) \<and>
      notePaths v2
        = notePaths (snd (createMetaNote (answeringEnv []) DEFAULT_SETTINGS scenarioVault
                            ''first analysis'' ''2025-10-01'' ''2025-10-02'')) \<and>
      bodiesAt v2 (metaNotePath DEFAULT_SETTINGS ''2025-10-01'' ''2025-10-02'')
        = [frontmatter (answeringEnv []) ''2025-10-01'' ''2025-10-02'' @ ''second analysis'']"
    by blast
  then show ?thesis
    unfolding p frontmatter_answering using scenario_first_run [of "[]"] by simp
qed

section \<open>The temporary file of the prompt\<close>

lemma themeTempFile_update:
  "themeTempFile (env\<lparr>execAsync := x, writeFileFails := y\<rparr>) = themeTempFile env"
  by (simp add: themeTempFile_def)

lemma analyzeWithClaudeCode_rejected:
  assumes w: "writeFileFails env = None"
    and x: "execAsync env (commandLine settings (themeTempFile env))
          (tmp(themeTempFile env \<mapsto> themePrompt content startDate endDate)) = Rejected m"
  shows "analyzeWithClaudeCode env settings tmp content startDate endDate
     = (Inl (Error (''Failed to analyze with Claude Code: '' @ m)),
        tmp(themeTempFile env \<mapsto> themePrompt content startDate endDate))"
  unfolding analyzeWithClaudeCode_def Let_def
  by (simp only: writeFile_ok [OF w] x sum.case ExecResult.case)

lemma analyzeConnections_rejected:
  assumes c: "connectionContext v currentFile allFiles = Inr ctx"
    and w: "writeFileFails env = None"
    and x: "execAsync env (commandLine settings (connectionTempFile env))
          (tmp(connectionTempFile env \<mapsto> connectionPrompt env settings currentFile ctx)) = Rejected m"
  shows "analyzeConnections JSON_parse ToNumber env settings v tmp currentFile allFiles
     = (Inl (Error (''Failed to analyze connections: '' @ m)),
        tmp(connectionTempFile env \<mapsto> connectionPrompt env settings currentFile ctx))"
  unfolding analyzeConnections_def Let_def
  by (simp only: c writeFile_ok [OF w] x sum.case ExecResult.case)


text \<open>
  Claim C3. The temporary file is not removed on every path. When the promise of
  \<open>execAsync\<close> is rejected, because the process cannot be started or exits with a
  failure, \<open>analyzeWithClaudeCode\<close> goes to its \<open>catch\<close>, which throws the error
  again; the \<open>unlink\<close> after the call is skipped, and the file stays in the
  directory of temporary files with the prompt in it. \<open>analyzeConnections\<close> does the
  same.
\<close>

theorem temp_file_left_when_process_fails:
  "analyzeWithClaudeCode (env\<lparr>execAsync := (\<lambda>command t. Rejected m), writeFileFails := None\<rparr>)
       settings tmp content startDate endDate
     = (Inl (Error (''Failed to analyze with Claude Code: '' @ m)),
        tmp(themeTempFile env \<mapsto> themePrompt content startDate endDate)) \<and>
   snd (analyzeWithClaudeCode
          (env\<lparr>execAsync := (\<lambda>command t. Rejected m), writeFileFails := None\<rparr>)
          settings tmp content startDate endDate) (themeTempFile env)
     = Some (themePrompt content startDate endDate) \<and>
   snd (analyzeConnections JSON_parse ToNumber failingEnv DEFAULT_SETTINGS scenarioVault Map.empty
          (journalFile ''2025-10-01'') (getMarkdownFiles scenarioVault))
       (connectionTempFile failingEnv) \<noteq> None"
proof -
  let ?env = "env\<lparr>execAsync := (\<lambda>command t. Rejected m), writeFileFails := None\<rparr>"
  have "analyzeWithClaudeCode ?env settings tmp content startDate endDate
     = (Inl (Error (''Failed to analyze with Claude Code: '' @ m)),
        tmp(themeTempFile ?env \<mapsto> themePrompt content startDate endDate))"
    by (rule analyzeWithClaudeCode_rejected) simp_all
  then have a: "analyzeWithClaudeCode ?env settings tmp content startDate endDate
     = (Inl (Error (''Failed to analyze with Claude Code: '' @ m)),
        tmp(themeTempFile env \<mapsto> themePrompt content startDate endDate))"
    by (simp only: themeTempFile_update)
  from connectionContext_scenario obtain ctx where
    c: "connectionContext scenarioVault (journalFile ''2025-10-01'')
          (getMarkdownFiles scenarioVault) = Inr ctx"
    by blast
  have "analyzeConnections JSON_parse ToNumber failingEnv DEFAULT_SETTINGS scenarioVault Map.empty
          (journalFile ''2025-10-01'') (getMarkdownFiles scenarioVault)
     = (Inl (Error (''Failed to analyze connections: ''
                     @ ''Command failed: /bin/sh: claude: command not found'')),
        Map.empty(connectionTempFile failingEnv
           \<mapsto> connectionPrompt failingEnv DEFAULT_SETTINGS (journalFile ''2025-10-01'') ctx))"
    by (rule analyzeConnections_rejected [OF c]) (simp_all add: failingEnv_def)
  then have b: "snd (analyzeConnections JSON_parse ToNumber failingEnv DEFAULT_SETTINGS scenarioVault
          Map.empty (journalFile ''2025-10-01'') (getMarkdownFiles scenarioVault))
       (connectionTempFile failingEnv) \<noteq> None"
    by (simp only: snd_conv fun_upd_same) simp
  from a b show ?thesis by (simp only: snd_conv fun_upd_same simp_thms)
qed


text \<open>
  When the process answers, with an empty output or not, and the file can be
  written and removed, \<open>analyzeWithClaudeCode\<close> leaves the temporary files as they
  were, without the file of the prompt.
\<close>

theorem temp_file_removed_when_process_answers:
  assumes w: "writeFileFails env = None" and u: "unlinkFails env = None"
    and x: "execAsync env (commandLine settings (themeTempFile env))
          (tmp(themeTempFile env \<mapsto> themePrompt content startDate endDate)) = Resolved out err"
  shows "snd (analyzeWithClaudeCode env settings tmp content startDate endDate)
           = tmp(themeTempFile env := None)"
proof (cases "out = [] \<or> length (trim out) = 0")
  case True
  show ?thesis
    unfolding analyzeWithClaudeCode_def Let_def
    by (simp only: writeFile_ok [OF w] unlink_written [OF u] x True sum.case ExecResult.case
        if_True snd_conv)
next
  case False
  show ?thesis
    unfolding analyzeWithClaudeCode_def Let_def
    by (simp only: writeFile_ok [OF w] unlink_written [OF u] x False sum.case ExecResult.case
        if_False snd_conv)
qed

theorem temp_file_removed_when_process_answers_witness:
  "writeFileFails (answeringEnv ''# Themes'') = None \<and>
   unlinkFails (answeringEnv ''# Themes'') = None \<and>
   snd (analyzeWithClaudeCode (answeringEnv ''# Themes'') DEFAULT_SETTINGS Map.empty ''entries''
          ''2025-10-01'' ''2025-10-02'') (themeTempFile (answeringEnv ''# Themes'')) = None"
proof -
  have w: "writeFileFails (answeringEnv ''# Themes'') = None"
    and u: "unlinkFails (answeringEnv ''# Themes'') = None"
    by (simp_all add: answeringEnv_def)
  have x: "execAsync (answeringEnv ''# Themes'')
      (commandLine DEFAULT_SETTINGS (themeTempFile (answeringEnv ''# Themes'')))
      (Map.empty(themeTempFile (answeringEnv ''# Themes'')
         \<mapsto> themePrompt ''entries'' ''2025-10-01'' ''2025-10-02'')) = Resolved ''# Themes'' []"
    by (simp add: answeringEnv_def)
  from temp_file_removed_when_process_answers [OF w u x] w u
  show ?thesis by simp
qed

section \<open>Inserting a link\<close>

lemma read_linkVault: "read linkVault noteFile = Inr ''Talked about money today''"
  by (simp add: read_def linkVault_def)

lemma replace_dollar:
  "replace ''Talked about money today'' ''money'' ''[[Cash $$]]''
     = ''Talked about [[Cash $]] today''"
  by (simp add: replace_def)

lemma splitAtFirst_None_iff: "splitAtFirst pat acc s = None \<longleftrightarrow> \<not> sublist pat s"
proof (induction s arbitrary: acc)
  case Nil
  then show ?case by simp
next
  case (Cons c cs)
  show ?case
  proof (cases "prefix pat (c # cs)")
    case True
    then show ?thesis by (simp add: sublist_Cons_right)
  next
    case False
    then show ?thesis by (simp add: Cons.IH sublist_Cons_right)
  qed
qed

lemma splitAtFirst_first:
  "(\<forall>k < length b. \<not> prefix pat (drop k (b @ pat @ a))) \<Longrightarrow>
     splitAtFirst pat acc (b @ pat @ a) = Some (rev acc @ b, a)"
proof (induction b arbitrary: acc)
  case Nil
  show ?case
  proof (cases "pat @ a")
    case Nil
    then show ?thesis by simp
  next
    case (Cons c cs)
    then have "splitAtFirst pat acc (pat @ a) = Some (rev acc, drop (length pat) (pat @ a))"
      by (metis prefixI splitAtFirst.simps(2))
    then show ?thesis by simp
  qed
next
  case (Cons x b)
  from Cons.prems have 0: "\<not> prefix pat (x # b @ pat @ a)"
    by (metis append_Cons drop0 length_greater_0_conv list.distinct(1))
  have "\<forall>k < length b. \<not> prefix pat (drop k (b @ pat @ a))"
  proof (intro allI impI)
    fix k assume "k < length b"
    then have "Suc k < length (x # b)" by simp
    with Cons.prems have "\<not> prefix pat (drop (Suc k) ((x # b) @ pat @ a))" by blast
    then show "\<not> prefix pat (drop k (b @ pat @ a))" by simp
  qed
  then have "splitAtFirst pat (x # acc) (b @ pat @ a) = Some (rev (x # acc) @ b, a)"
    by (rule Cons.IH)
  with 0 show ?case by simp
qed

lemma getSubstitution_plain:
  "CHR ''$'' \<notin> set t \<Longrightarrow> getSubstitution m b a t = t"
  by (induction m b a t rule: getSubstitution.induct) auto

lemma wikiLinkOf_plain: "CHR ''$'' \<notin> set targetPath \<Longrightarrow> CHR ''$'' \<notin> set (wikiLinkOf targetPath)"
  by (auto simp: wikiLinkOf_def stripMd_def dest: in_set_takeD)

lemma read_modify:
  "read v file = Inr content \<Longrightarrow>
     modify v t file c = Inr (v\<lparr>fileList := rewritten (path file) t c (fileList v)\<rparr>)"
  by (auto simp: read_def modify_def rewritten_def split: option.splits)

lemma example_absent:
  "insertWikiLink linkVault 5 noteFile ''funds'' ''Cash.md'' = (Inr False, linkVault)"
  by (simp add: insertWikiLink_def Let_def read_linkVault replace_def)

lemma wikiLinkOf_Cash: "wikiLinkOf ''Cash.md'' = ''[[Cash]]''"
  by (simp add: wikiLinkOf_def stripMd_def suffix_def)

lemma example_present:
  "insertWikiLink linkVault 5 noteFile ''money'' ''Cash.md''
     = (Inr True,
        linkVault\<lparr>fileList := [(noteFile\<lparr>mtime := 5\<rparr>, ''Talked about [[Cash]] today'')]\<rparr>)"
proof -
  have r: "replace ''Talked about money today'' ''money'' ''[[Cash]]''
      = ''Talked about [[Cash]] today''"
    by (simp add: replace_def)
  have m: "modify linkVault 5 noteFile ''Talked about [[Cash]] today''
      = Inr (linkVault\<lparr>fileList :=
               [(noteFile\<lparr>mtime := 5\<rparr>, ''Talked about [[Cash]] today'')]\<rparr>)"
    by (simp add: modify_def linkVault_def)
  show ?thesis
    by (simp add: insertWikiLink_def Let_def read_linkVault wikiLinkOf_Cash r m)
qed

lemma insertWikiLink_failure:
  "fst (insertWikiLink v t file s p) \<noteq> Inr True \<Longrightarrow> snd (insertWikiLink v t file s p) = v"
  by (auto simp: insertWikiLink_def Let_def split: sum.splits if_splits)


text \<open>
  Claim C5. The text put in the place of the source text is not always the
  wiki-link: \<open>String.prototype.replace\<close> expands the dollar patterns of its second
  argument, so for the target \<open>Cash $$.md\<close>, whose wiki-link is \<open>[[Cash $$]]\<close>, the
  note receives \<open>[[Cash $]]\<close>.
\<close>

theorem insertWikiLink_dollar:
  "wikiLinkOf ''Cash $$.md'' = ''[[Cash $$]]'' \<and>
   fst (insertWikiLink linkVault 5 noteFile ''money'' ''Cash $$.md'') = Inr True \<and>
   bodiesAt (snd (insertWikiLink linkVault 5 noteFile ''money'' ''Cash $$.md'')) ''note.md''
     = [''Talked about [[Cash $]] today'']"
proof -
  have l: "wikiLinkOf ''Cash $$.md'' = ''[[Cash $$]]''"
    by (simp add: wikiLinkOf_def stripMd_def suffix_def)
  have m: "modify linkVault 5 noteFile ''Talked about [[Cash $]] today''
      = Inr (linkVault\<lparr>fileList :=
               [(noteFile\<lparr>mtime := 5\<rparr>, ''Talked about [[Cash $]] today'')]\<rparr>)"
    by (simp add: modify_def linkVault_def)
  have "insertWikiLink linkVault 5 noteFile ''money'' ''Cash $$.md''
      = (Inr True, linkVault\<lparr>fileList :=
               [(noteFile\<lparr>mtime := 5\<rparr>, ''Talked about [[Cash $]] today'')]\<rparr>)"
    unfolding insertWikiLink_def Let_def read_linkVault l replace_dollar
    by (simp add: m replace_dollar)
  then show ?thesis using l by (simp add: bodiesAt_def noteFile_def)
qed

text \<open>
  When the note can be read and does not contain the source text, \<open>insertWikiLink\<close>
  returns \<open>false\<close>, throws nothing and leaves the vault as it was.
\<close>

theorem insertWikiLink_absent:
  assumes "read v file = Inr content" and "\<not> sublist sourceText' content"
  shows "insertWikiLink v t file sourceText' targetPath = (Inr False, v)"
proof -
  have "splitAtFirst sourceText' [] content = None"
    using assms(2) by (simp add: splitAtFirst_None_iff)
  then have "replace content sourceText' (wikiLinkOf targetPath) = content"
    by (simp add: replace_def)
  then show ?thesis
    by (simp add: insertWikiLink_def assms(1) Let_def)
qed

theorem insertWikiLink_absent_witness:
  "read linkVault noteFile = Inr ''Talked about money today'' \<and>
   \<not> sublist ''funds'' ''Talked about money today'' \<and>
   insertWikiLink linkVault 5 noteFile ''funds'' ''Cash.md'' = (Inr False, linkVault)"
proof -
  have n: "\<not> sublist ''funds'' ''Talked about money today''"
    unfolding splitAtFirst_None_iff [of _ "[]", symmetric] by simp
  from insertWikiLink_absent [OF read_linkVault n] read_linkVault n
  show ?thesis by simp
qed


text \<open>
  When the target path has no dollar sign and the wiki-link differs from the source
  text, \<open>insertWikiLink\<close> returns \<open>true\<close> and the note has the wiki-link in the
  place of the first occurrence of the source text, the text before and after that
  occurrence being kept.
\<close>

theorem insertWikiLink_first_occurrence:
  assumes "read v file = Inr (before @ sourceText' @ after)"
    and "\<forall>k < length before. \<not> prefix sourceText' (drop k (before @ sourceText' @ after))"
    and "CHR ''$'' \<notin> set targetPath"
    and "wikiLinkOf targetPath \<noteq> sourceText'"
  shows "insertWikiLink v t file sourceText' targetPath
     = (Inr True,
        v\<lparr>fileList := rewritten (path file) t (before @ wikiLinkOf targetPath @ after)
                         (fileList v)\<rparr>)"
proof -
  have s: "splitAtFirst sourceText' [] (before @ sourceText' @ after) = Some (before, after)"
    using splitAtFirst_first [OF assms(2), of "[]"] by simp
  have g: "getSubstitution sourceText' before after (wikiLinkOf targetPath) = wikiLinkOf targetPath"
    using assms(3) by (simp add: getSubstitution_plain wikiLinkOf_plain)
  have r: "replace (before @ sourceText' @ after) sourceText' (wikiLinkOf targetPath)
      = before @ wikiLinkOf targetPath @ after"
    by (simp add: replace_def s g)
  have ne: "before @ wikiLinkOf targetPath @ after \<noteq> before @ sourceText' @ after"
    using assms(4) by simp
  show ?thesis
    using assms(4)
    by (simp add: insertWikiLink_def Let_def assms(1) r read_modify [OF assms(1)])
qed

theorem insertWikiLink_first_occurrence_witness:
  "read linkVault noteFile = Inr (''Talked about '' @ ''money'' @ '' today'') \<and>
   insertWikiLink linkVault 5 noteFile ''money'' ''Cash.md''
     = (Inr True,
        linkVault\<lparr>fileList := [(noteFile\<lparr>mtime := 5\<rparr>, ''Talked about [[Cash]] today'')]\<rparr>)"
proof -
  have r: "read linkVault noteFile = Inr (''Talked about '' @ ''money'' @ '' today'')"
    using read_linkVault by simp
  have f: "\<forall>k < length ''Talked about ''.
      \<not> prefix ''money'' (drop k (''Talked about '' @ ''money'' @ '' today''))"
    by (simp add: All_less_Suc2 eval_nat_numeral)
  have d: "CHR ''$'' \<notin> set ''Cash.md''" by simp
  note w = wikiLinkOf_Cash
  have n: "wikiLinkOf ''Cash.md'' \<noteq> ''money''" by (simp add: w)
  from insertWikiLink_first_occurrence [OF r f d n, of 5] r
  show ?thesis
    by (simp add: w rewritten_def linkVault_def noteFile_def)
qed


text \<open>
  Adding all links goes through every connection: the two counters together grow by
  the number of connections, and after a connection that could not be applied the
  remaining ones are applied as they would have been without it, the failure being
  counted.
\<close>

theorem addAllLinks_continues:
  "(case addAllLinks v t currentFile connections added failed of
      (v', added', failed') \<Rightarrow> added' + failed' = added + failed + length connections) \<and>
   (fst (insertWikiLink v t currentFile (sourceText c) (targetFile c)) \<noteq> Inr True \<longrightarrow>
      addAllLinks v t currentFile (c # rest) added failed
        = addAllLinks v t currentFile rest added (failed + 1))"
proof
  show "case addAllLinks v t currentFile connections added failed of
      (v', added', failed') \<Rightarrow> added' + failed' = added + failed + length connections"
  proof (induction connections arbitrary: v added failed)
    case Nil
    then show ?case by simp
  next
    case (Cons c cs)
    obtain r v' where i:
      "insertWikiLink v t currentFile (sourceText c) (targetFile c) = (r, v')"
      by (cases "insertWikiLink v t currentFile (sourceText c) (targetFile c)")
    show ?case
    proof (cases r)
      case (Inl e)
      with i Cons.IH [where v = v' and added = added and failed = "failed + 1"] show ?thesis
        by (auto split: prod.splits)
    next
      case (Inr success)
      with i Cons.IH [where v = v' and added = "added + 1" and failed = failed]
        Cons.IH [where v = v' and added = added and failed = "failed + 1"]
      show ?thesis
        by (auto split: prod.splits)
    qed
  qed
next
  show "fst (insertWikiLink v t currentFile (sourceText c) (targetFile c)) \<noteq> Inr True \<longrightarrow>
      addAllLinks v t currentFile (c # rest) added failed
        = addAllLinks v t currentFile rest added (failed + 1)"
  proof
    assume a: "fst (insertWikiLink v t currentFile (sourceText c) (targetFile c)) \<noteq> Inr True"
    obtain r v' where i:
      "insertWikiLink v t currentFile (sourceText c) (targetFile c) = (r, v')"
      by (cases "insertWikiLink v t currentFile (sourceText c) (targetFile c)")
    from insertWikiLink_failure [OF a] i have "v' = v" by simp
    with a i show "addAllLinks v t currentFile (c # rest) added failed
        = addAllLinks v t currentFile rest added (failed + 1)"
      by (cases r) auto
  qed
qed

theorem addAllLinks_continues_witness:
  "fst (insertWikiLink linkVault 5 noteFile (sourceText (suggestion ''funds''))
          (targetFile (suggestion ''funds''))) \<noteq> Inr True \<and>
   addAllLinks linkVault 5 noteFile [suggestion ''funds'', suggestion ''money''] 0 0
     = (linkVault\<lparr>fileList := [(noteFile\<lparr>mtime := 5\<rparr>, ''Talked about [[Cash]] today'')]\<rparr>,
        1, 1)"
proof -
  have a: "insertWikiLink linkVault 5 noteFile (sourceText (suggestion ''funds''))
          (targetFile (suggestion ''funds'')) = (Inr False, linkVault)"
    using example_absent by (simp add: suggestion_def)
  then have f: "fst (insertWikiLink linkVault 5 noteFile (sourceText (suggestion ''funds''))
          (targetFile (suggestion ''funds''))) \<noteq> Inr True"
    by simp
  have b: "insertWikiLink linkVault 5 noteFile (sourceText (suggestion ''money''))
          (targetFile (suggestion ''money''))
     = (Inr True,
        linkVault\<lparr>fileList := [(noteFile\<lparr>mtime := 5\<rparr>, ''Talked about [[Cash]] today'')]\<rparr>)"
    using example_present by (simp add: suggestion_def)
  from addAllLinks_continues [where v = linkVault and t = 5 and currentFile = noteFile
      and c = "suggestion ''funds''" and rest = "[suggestion ''money'']"
      and added = 0 and failed = 0] f
  have "addAllLinks linkVault 5 noteFile [suggestion ''funds'', suggestion ''money''] 0 0
      = addAllLinks linkVault 5 noteFile [suggestion ''money''] 0 (0 + 1)"
    by blast
  also have "\<dots> = (linkVault\<lparr>fileList :=
        [(noteFile\<lparr>mtime := 5\<rparr>, ''Talked about [[Cash]] today'')]\<rparr>, 1, 1)"
    by (simp add: b)
  finally show ?thesis using f by simp
qed


end
